theory Spec2Isabelle
  imports Complex_Main "HOL-Library.Word" "HOL-Library.Sublist"
begin

unbundle bit_operations_syntax

section \<open>Data model\<close>

text \<open>
  The services pass plain JavaScript objects around. A paper row is one record whose
  optional properties are \<open>option\<close> fields (\<open>None\<close> is \<open>undefined\<close>); the spread
  \<open>{...paper, k: v}\<close> is a record update. JavaScript numbers are modelled by exact
  reals, so the rounding of IEEE doubles is abstracted away. Strings are lists of 8-bit
  code units (the Latin-1 range of JavaScript's UTF-16 code units). Console output is
  not modelled.
\<close>

datatype failure = Thrown string | OutOfBounds

datatype content = TextContent string | BinaryContent "nat list"

record paper =
  pid :: string
  title :: string
  abstract :: string
  authors :: "string list"
  year :: "real option"
  url :: "string option"
  citationCount :: "real option"
  similarity :: "real option"
  relevance :: "real option"
  connectionStrength :: "real option"
  combinedScore :: "real option"
  sources :: "string list"
  fullContent :: "content option"
  contentType :: "string option"
  hasFullContent :: bool

record passage =
  paperId :: string
  paperTitle :: string
  passage_content :: string
  passage_relevance :: real
  passage_source :: string

record research_step =
  step_id :: string
  step_question :: string
  step_reasoning :: string
  findings :: "paper list"
  confidence :: int
  nextSteps :: "string list"

datatype json =
  JNull | JBool bool | JNum real | JStr string | JArr "json list" | JObj "(string \<times> json) list"

section \<open>JavaScript primitives\<close>

definition num_or0 :: "real option \<Rightarrow> real" where
  \<comment> \<open>\<open>x || 0\<close> for a number or \<open>undefined\<close>\<close>
  "num_or0 x = (case x of None \<Rightarrow> 0 | Some v \<Rightarrow> v)"

definition truthy :: "real option \<Rightarrow> bool" where
  "truthy x = (case x of None \<Rightarrow> False | Some v \<Rightarrow> v \<noteq> 0)"

definition js_round :: "real \<Rightarrow> int" where
  \<comment> \<open>\<open>Math.round\<close>: the nearest integer, a half rounding up\<close>
  "js_round x = \<lfloor>x + 1 / 2\<rfloor>"

definition js_rem :: "int \<Rightarrow> int \<Rightarrow> int" where
  \<comment> \<open>\<open>a % b\<close> on integers: the remainder takes the sign of the dividend\<close>
  "js_rem a b = sgn a * (\<bar>a\<bar> mod \<bar>b\<bar>)"

subsection \<open>Map objects: insertion-ordered entries\<close>

text \<open>
  A JavaScript \<open>Map\<close> iterates in insertion order, and \<open>set\<close> on a present key keeps
  the key's position. Mutating an object held by the map is a \<open>map_set\<close> at its key.
\<close>

fun map_set :: "('k \<times> 'v) list \<Rightarrow> 'k \<Rightarrow> 'v \<Rightarrow> ('k \<times> 'v) list" where
  "map_set [] k v = [(k, v)]"
| "map_set ((k', v') # m) k v = (if k' = k then (k, v) # m else (k', v') # map_set m k v)"

definition map_values :: "('k \<times> 'v) list \<Rightarrow> 'v list" where
  "map_values m = map snd m"

subsection \<open>Strings\<close>

definition backslash :: char where
  "backslash = CHR 0x5C"

definition newline :: char where
  "newline = CHR 0x0A"

definition is_upper_az :: "char \<Rightarrow> bool" where
  "is_upper_az c = (65 \<le> (of_char c :: nat) \<and> (of_char c :: nat) \<le> 90)"

definition is_lower_az :: "char \<Rightarrow> bool" where
  "is_lower_az c = (97 \<le> (of_char c :: nat) \<and> (of_char c :: nat) \<le> 122)"

definition is_digit :: "char \<Rightarrow> bool" where
  "is_digit c = (48 \<le> (of_char c :: nat) \<and> (of_char c :: nat) \<le> 57)"

definition is_word_char :: "char \<Rightarrow> bool" where
  \<comment> \<open>the regular-expression class \<open>\w\<close>\<close>
  "is_word_char c = (is_upper_az c \<or> is_lower_az c \<or> is_digit c \<or> c = CHR ''_'')"

definition is_js_space :: "char \<Rightarrow> bool" where
  \<comment> \<open>the class \<open>\s\<close> and the characters \<open>trim\<close> removes, among the code units below 256\<close>
  "is_js_space c = ((of_char c :: nat) \<in> {9, 10, 11, 12, 13, 32, 160})"

definition js_lower_char :: "char \<Rightarrow> char" where
  "js_lower_char c =
     (let n = (of_char c :: nat)
      in if (65 \<le> n \<and> n \<le> 90) \<or> (192 \<le> n \<and> n \<le> 214) \<or> (216 \<le> n \<and> n \<le> 222)
         then char_of (n + 32) else c)"

definition toLowerCase :: "string \<Rightarrow> string" where
  "toLowerCase s = map js_lower_char s"

definition trim :: "string \<Rightarrow> string" where
  "trim s = rev (dropWhile is_js_space (rev (dropWhile is_js_space s)))"

fun split_on :: "char \<Rightarrow> string \<Rightarrow> string list" where
  \<comment> \<open>\<open>s.split(d)\<close> for a one-character separator\<close>
  "split_on d [] = [[]]"
| "split_on d (c # cs) =
     (if c = d then [] # split_on d cs
      else (case split_on d cs of [] \<Rightarrow> [[c]] | w # ws \<Rightarrow> (c # w) # ws))"

function split_runs :: "(char \<Rightarrow> bool) \<Rightarrow> string \<Rightarrow> string list" where
  \<comment> \<open>\<open>s.split(/X+/)\<close> for a character class \<open>X\<close>\<close>
  "split_runs P [] = [[]]"
| "split_runs P (c # cs) =
     (if P c then [] # split_runs P (dropWhile P cs)
      else (case split_runs P cs of [] \<Rightarrow> [[c]] | w # ws \<Rightarrow> (c # w) # ws))"
  by pat_completeness auto
termination
  by (relation "measure (\<lambda>(P, s). length s)") (auto simp: le_imp_less_Suc length_dropWhile_le)

fun join_with :: "string \<Rightarrow> string list \<Rightarrow> string" where
  "join_with sep [] = []"
| "join_with sep [w] = w"
| "join_with sep (w # ws) = w @ sep @ join_with sep ws"

definition str_includes :: "string \<Rightarrow> string \<Rightarrow> bool" where
  \<comment> \<open>\<open>s.includes(t)\<close>\<close>
  "str_includes s t = sublist t s"

section \<open>Embeddings (neo4jService)\<close>

subsection \<open>Hash functions\<close>

text \<open>
  In \<open>enhancedHash\<close> only the shift wraps to 32 bits; the running sum is a double, which
  holds these integers exactly below \<open>2^53\<close> (every string of up to a few million
  characters), and is modelled by an unbounded integer. The mixing steps and
  \<open>simpleHash\<close> work on 32-bit integers throughout.
\<close>

definition hash_step :: "int \<Rightarrow> char \<Rightarrow> int" where
  \<comment> \<open>\<open>((hash << 5) + hash) + str.charCodeAt(i)\<close>: the shift wraps to 32 bits, the sums do not\<close>
  "hash_step hash c = (sint (push_bit 5 (word_of_int hash :: 32 word)) + hash) + of_char c"

definition enhancedHash_mix :: "32 word \<Rightarrow> 32 word" where
  "enhancedHash_mix h0 =
     (let h1 = h0 XOR drop_bit 16 h0;
          h2 = h1 * 0x85ebca6b;
          h3 = h2 XOR drop_bit 13 h2;
          h4 = h3 * 0xc2b2ae35
      in h4 XOR drop_bit 16 h4)"

definition enhancedHash :: "string \<Rightarrow> int" where
  "enhancedHash str = \<bar>sint (enhancedHash_mix (word_of_int (foldl hash_step 5381 str)))\<bar>"

definition simpleHash_step :: "32 word \<Rightarrow> char \<Rightarrow> 32 word" where
  \<comment> \<open>\<open>hash = ((hash << 5) - hash) + char; hash = hash & hash\<close>\<close>
  "simpleHash_step hash c = (push_bit 5 hash - hash) + of_char c"

definition simpleHash :: "string \<Rightarrow> int" where
  "simpleHash str = \<bar>sint (foldl simpleHash_step 0 str)\<bar>"

subsection \<open>Tokenisation of the primary embedding\<close>

definition replace_non_word_space :: "string \<Rightarrow> string" where
  \<comment> \<open>\<open>.replace(/[^\\w\\s]/g, ' ')\<close>: in the source the class lists a backslash, \<open>w\<close> and \<open>s\<close>\<close>
  "replace_non_word_space s =
     map (\<lambda>c. if c = backslash \<or> c = CHR ''w'' \<or> c = CHR ''s'' then c else CHR '' '') s"

function replace_space_runs :: "string \<Rightarrow> string" where
  \<comment> \<open>\<open>.replace(/\\s+/g, ' ')\<close>: in the source a backslash followed by one or more \<open>s\<close>\<close>
  "replace_space_runs [] = []"
| "replace_space_runs (c # cs) =
     (if c = backslash \<and> cs \<noteq> [] \<and> hd cs = CHR ''s''
      then CHR '' '' # replace_space_runs (dropWhile (\<lambda>x. x = CHR ''s'') cs)
      else c # replace_space_runs cs)"
  by pat_completeness auto
termination
  by (relation "measure length") (auto simp: le_imp_less_Suc length_dropWhile_le)

definition cleanText :: "string \<Rightarrow> string" where
  "cleanText text = trim (replace_space_runs (replace_non_word_space (toLowerCase text)))"

definition words_of :: "string \<Rightarrow> string list" where
  "words_of text = filter (\<lambda>w. length w > 2) (split_on (CHR '' '') (cleanText text))"

subsection \<open>Feature blocks\<close>

definition count_word :: "(string \<times> nat) list \<Rightarrow> string \<Rightarrow> (string \<times> nat) list" where
  \<comment> \<open>\<open>wordFreq.set(word, (wordFreq.get(word) || 0) + 1)\<close>\<close>
  "count_word m word = map_set m word ((case map_of m word of None \<Rightarrow> 0 | Some n \<Rightarrow> n) + 1)"

definition wordFreq :: "string list \<Rightarrow> (string \<times> nat) list" where
  "wordFreq words = foldl count_word [] words"

definition max_values :: "(string \<times> nat) list \<Rightarrow> nat" where
  \<comment> \<open>\<open>Math.max(...wordFreq.values())\<close> of a map of positive counts\<close>
  "max_values m = foldl max 0 (map_values m)"

fun term_frequency_writes :: "(string \<times> nat) list \<Rightarrow> nat \<Rightarrow> nat \<Rightarrow> (int \<times> real) list" where
  \<comment> \<open>the \<open>+=\<close> writes of block 1 in program order, as (index, increment)\<close>
  "term_frequency_writes [] dimIndex maxFreq = []"
| "term_frequency_writes ((word, freq) # rest) dimIndex maxFreq =
     (if dimIndex \<ge> 256 then []
      else
        let normalizedFreq = real freq / real maxFreq;
            hash = enhancedHash word
        in (js_rem (int dimIndex) 256, normalizedFreq)
           # (js_rem hash 256, normalizedFreq * 0.5)
           # term_frequency_writes rest (dimIndex + 1) maxFreq)"

definition generateNGrams :: "string list \<Rightarrow> nat \<Rightarrow> string list" where
  "generateNGrams words n =
     map (\<lambda>i. join_with '' '' (take n (drop i words))) [0..<Suc (length words) - n]"

definition ngram_writes :: "string list \<Rightarrow> (int \<times> real) list" where
  \<comment> \<open>the \<open>+=\<close> writes of block 2, as (index, increment)\<close>
  "ngram_writes words =
     map (\<lambda>(index, ngram).
            (256 + js_rem (enhancedHash ngram) 128,
             1 / sqrt (real (length (split_on (CHR '' '') ngram)))))
       (filter (\<lambda>(index, ngram). \<not> index \<ge> 128)
          (enumerate 0 (generateNGrams words 2 @ generateNGrams words 3)))"

definition keyword_score :: "string list \<Rightarrow> string list \<Rightarrow> real" where
  \<comment> \<open>\<open>keywords.reduce((score, k) => score + words.filter(w => w.includes(k)).length, 0)
      / Math.max(words.length, 1)\<close>\<close>
  "keyword_score keywords words =
     real (foldl (\<lambda>score keyword. score + length (filter (\<lambda>w. str_includes w keyword) words))
             0 keywords)
       / real (max (length words) 1)"

definition domains :: "(string \<times> string list) list" where
  "domains =
     [(''machine_learning'', [''learning'', ''neural'', ''network'', ''algorithm'', ''model'', ''training'']),
      (''nlp'', [''language'', ''text'', ''word'', ''semantic'', ''parsing'', ''embedding'']),
      (''computer_vision'', [''image'', ''visual'', ''pixel'', ''detection'', ''recognition'', ''convolution'']),
      (''robotics'', [''robot'', ''control'', ''motion'', ''sensor'', ''autonomous'', ''manipulation'']),
      (''theory'', [''theorem'', ''proof'', ''complexity'', ''analysis'', ''mathematical'', ''optimization''])]"

function count_capitalized :: "string \<Rightarrow> nat" where
  \<comment> \<open>\<open>(text.match(/[A-Z][a-z]+/g) || []).length\<close>\<close>
  "count_capitalized [] = 0"
| "count_capitalized (c # cs) =
     (if is_upper_az c \<and> cs \<noteq> [] \<and> is_lower_az (hd cs)
      then 1 + count_capitalized (dropWhile is_lower_az cs)
      else count_capitalized cs)"
  by pat_completeness auto
termination
  by (relation "measure length") (auto simp: le_imp_less_Suc length_dropWhile_le)

definition extractSemanticFeatures :: "string \<Rightarrow> string list \<Rightarrow> real list" where
  \<comment> \<open>the eleven features written at \<open>featureIndex\<close> 0 to 10 of a 128-entry array of zeros\<close>
  "extractSemanticFeatures text words =
     (let domainScores = map (\<lambda>(domain, keywords). keyword_score keywords words) domains;
          avgWordLength =
            real (foldl (\<lambda>sum w. sum + length w) 0 words) / real (max (length words) 1);
          uniqueWordRatio = real (card (set words)) / real (max (length words) 1);
          capitalizedWords = count_capitalized text;
          methodScore =
            keyword_score [''method'', ''approach'', ''technique'', ''framework'', ''system''] words;
          resultScore =
            keyword_score [''result'', ''performance'', ''accuracy'', ''evaluation'', ''experiment''] words;
          noveltyScore =
            keyword_score [''novel'', ''new'', ''improved'', ''enhanced'', ''proposed''] words;
          written =
            domainScores
            @ [avgWordLength / 10, uniqueWordRatio,
               real capitalizedWords / real (max (length words) 1),
               methodScore, resultScore, noveltyScore]
      in written @ replicate (128 - length written) 0)"

definition semantic_writes :: "real list \<Rightarrow> (int \<times> real) list" where
  \<comment> \<open>the assignments of block 3, as (index, value)\<close>
  "semantic_writes semanticFeatures =
     map (\<lambda>(index, value). (384 + int index, value))
       (filter (\<lambda>(index, value). index < 128) (enumerate 0 semanticFeatures))"

subsection \<open>Array writes and normalisation\<close>

text \<open>
  A write is checked against the array: an index outside it is reported as
  \<open>OutOfBounds\<close> (JavaScript would grow the array or set a property instead).
\<close>

fun add_all :: "real list \<Rightarrow> (int \<times> real) list \<Rightarrow> failure + real list" where
  \<comment> \<open>\<open>embedding[i] += v\<close> for each write\<close>
  "add_all embedding [] = Inr embedding"
| "add_all embedding ((i, v) # ws) =
     (if 0 \<le> i \<and> i < int (length embedding)
      then add_all (embedding[nat i := embedding ! nat i + v]) ws
      else Inl OutOfBounds)"

fun set_all :: "real list \<Rightarrow> (int \<times> real) list \<Rightarrow> failure + real list" where
  \<comment> \<open>\<open>embedding[i] = v\<close> for each write\<close>
  "set_all embedding [] = Inr embedding"
| "set_all embedding ((i, v) # ws) =
     (if 0 \<le> i \<and> i < int (length embedding)
      then set_all (embedding[nat i := v]) ws
      else Inl OutOfBounds)"

definition magnitude_of :: "real list \<Rightarrow> real" where
  "magnitude_of embedding = sqrt (foldl (\<lambda>sum val. sum + val * val) 0 embedding)"

definition normalize_vector :: "real list \<Rightarrow> real list" where
  "normalize_vector embedding =
     (let magnitude = magnitude_of embedding
      in map (\<lambda>val. if magnitude > 0 then val / magnitude else 0) embedding)"

subsection \<open>The two embeddings\<close>

definition generateEnhancedEmbedding :: "string \<Rightarrow> failure + real list" where
  "generateEnhancedEmbedding text =
     (let embedding = replicate 512 0
      in if text = [] \<or> length (trim text) = 0 then Inr embedding
         else
           let words = words_of text
           in if length words = 0 then Inr embedding
              else
                let freqs = wordFreq words;
                    maxFreq = max_values freqs
                in case add_all embedding (term_frequency_writes freqs 0 maxFreq) of
                     Inl e \<Rightarrow> Inl e
                   | Inr embedding1 \<Rightarrow>
                       (case add_all embedding1 (ngram_writes words) of
                          Inl e \<Rightarrow> Inl e
                        | Inr embedding2 \<Rightarrow>
                            (case set_all embedding2
                                    (semantic_writes (extractSemanticFeatures text words)) of
                               Inl e \<Rightarrow> Inl e
                             | Inr embedding3 \<Rightarrow> Inr (normalize_vector embedding3))))"

definition generateSimpleEmbedding :: "string \<Rightarrow> failure + real list" where
  "generateSimpleEmbedding text =
     (let words = filter (\<lambda>w. length w > 2)
                    (split_runs (\<lambda>c. \<not> is_word_char c) (toLowerCase text));
          embedding = replicate 384 0
      in if length words = 0 then Inr embedding
         else
           case add_all embedding
                  (map (\<lambda>(index, word). (js_rem (simpleHash word) 384, 1 / (real index + 1)))
                     (enumerate 0 words)) of
             Inl e \<Rightarrow> Inl e
           | Inr embedding1 \<Rightarrow> Inr (normalize_vector embedding1))"

section \<open>The graph store service (neo4jService)\<close>

text \<open>
  The database driver is an external collaborator. Each query of the service is an
  oracle of the driver: it stands for \<open>session.run\<close> on that Cypher text followed by
  the mapping of the returned records, and yields the rows or the exception thrown.
  Opening and closing a session may throw as well. A limit is a count of rows (the
  callers pass 10, 8, 5 and 3).
\<close>

record content_result =
  cr_content :: "content option"
  cr_contentType :: "string option"
  cr_hasFullContent :: bool

record driver =
  session_open :: "failure option"
  session_close :: "failure option"
  run_keyword :: "string \<Rightarrow> nat \<Rightarrow> string option \<Rightarrow> failure + paper list"
  run_semantic :: "real list \<Rightarrow> nat \<Rightarrow> string option \<Rightarrow> failure + paper list"
  run_graph :: "string list \<Rightarrow> nat \<Rightarrow> string option \<Rightarrow> failure + paper list"
  run_content :: "string \<Rightarrow> failure + content_result"

record neo4j_service =
  connected' :: bool
  driver :: "driver option"

record hybrid_result =
  semanticResults :: "paper list"
  keywordResults :: "paper list"
  graphResults :: "paper list"
  combinedResults :: "paper list"

text \<open>
  Methods take the service object as their first argument. The \<open>catch\<close> branch of
  \<open>generateEmbeddings\<close> is entered when the primary embedding fails; the only failure
  the model of the primary embedding can report is an out-of-bounds write.
\<close>

definition generateEmbeddings :: "neo4j_service \<Rightarrow> string \<Rightarrow> failure + real list" where
  \<comment> \<open>\<open>try { return this.generateEnhancedEmbedding(text) }
      catch (error) { return this.generateSimpleEmbedding(text) }\<close>\<close>
  "generateEmbeddings this text =
     (case generateEnhancedEmbedding text of
        Inr embedding \<Rightarrow> Inr embedding
      | Inl error \<Rightarrow> generateSimpleEmbedding text)"

definition search_session :: "driver \<Rightarrow> failure + paper list \<Rightarrow> failure + paper list" where
  \<comment> \<open>\<open>const session = this.driver.session();
      try { ... } catch (error) { return [] } finally { await session.close() }\<close>\<close>
  "search_session d body =
     (case session_open d of
        Some e \<Rightarrow> Inl e
      | None \<Rightarrow>
          let result = (case body of Inl error \<Rightarrow> [] | Inr rows \<Rightarrow> rows)
          in case session_close d of Some e \<Rightarrow> Inl e | None \<Rightarrow> Inr result)"

definition keywordSearch ::
  "neo4j_service \<Rightarrow> string \<Rightarrow> nat \<Rightarrow> string option \<Rightarrow> failure + paper list" where
  "keywordSearch this queryText limit topic =
     (if \<not> connected' this \<or> driver this = None then Inr []
      else case driver this of
             None \<Rightarrow> Inr []
           | Some d \<Rightarrow> search_session d (run_keyword d queryText limit topic))"

definition semanticSearch ::
  "neo4j_service \<Rightarrow> string \<Rightarrow> nat \<Rightarrow> string option \<Rightarrow> failure + paper list" where
  "semanticSearch this queryText limit topic =
     (if \<not> connected' this \<or> driver this = None then Inr []
      else case driver this of
             None \<Rightarrow> Inr []
           | Some d \<Rightarrow>
               search_session d
                 (case generateEmbeddings this queryText of
                    Inl e \<Rightarrow> Inl e
                  | Inr queryEmbedding \<Rightarrow> run_semantic d queryEmbedding limit topic))"

definition graphSearch ::
  "neo4j_service \<Rightarrow> string \<Rightarrow> nat \<Rightarrow> string option \<Rightarrow> failure + paper list" where
  "graphSearch this queryText limit topic =
     (if \<not> connected' this \<or> driver this = None then Inr []
      else case driver this of
             None \<Rightarrow> Inr []
           | Some d \<Rightarrow>
               search_session d
                 (case keywordSearch this queryText 3 topic of
                    Inl e \<Rightarrow> Inl e
                  | Inr seedPapers \<Rightarrow>
                      if length seedPapers = 0 then Inr []
                      else run_graph d (map pid seedPapers) limit topic))"

subsection \<open>Merging the three result lists\<close>

definition add_semantic :: "(string \<times> paper) list \<Rightarrow> paper \<Rightarrow> (string \<times> paper) list" where
  "add_semantic resultMap p =
     (let score = num_or0 (similarity p) * 0.5
      in map_set resultMap (pid p) (p\<lparr>combinedScore := Some score, sources := [''semantic'']\<rparr>))"

definition add_keyword :: "(string \<times> paper) list \<Rightarrow> paper \<Rightarrow> (string \<times> paper) list" where
  "add_keyword resultMap p =
     (let score = num_or0 (relevance p) * 0.3
      in case map_of resultMap (pid p) of
           Some existing \<Rightarrow>
             map_set resultMap (pid p)
               (existing\<lparr>combinedScore := Some (num_or0 (combinedScore existing) + score),
                         sources := sources existing @ [''keyword'']\<rparr>)
         | None \<Rightarrow>
             map_set resultMap (pid p) (p\<lparr>combinedScore := Some score, sources := [''keyword'']\<rparr>))"

definition add_graph :: "(string \<times> paper) list \<Rightarrow> paper \<Rightarrow> (string \<times> paper) list" where
  "add_graph resultMap p =
     (let score = num_or0 (connectionStrength p) * 0.2
      in case map_of resultMap (pid p) of
           Some existing \<Rightarrow>
             map_set resultMap (pid p)
               (existing\<lparr>combinedScore := Some (num_or0 (combinedScore existing) + score),
                         sources := sources existing @ [''graph'']\<rparr>)
         | None \<Rightarrow>
             map_set resultMap (pid p) (p\<lparr>combinedScore := Some score, sources := [''graph'']\<rparr>))"

definition add_bonus :: "paper \<Rightarrow> paper" where
  "add_bonus p =
     (if length (sources p) > 1
      then p\<lparr>combinedScore :=
                Some (num_or0 (combinedScore p) + 0.1 * (real (length (sources p)) - 1))\<rparr>
      else p)"

definition merged_map :: "paper list \<Rightarrow> paper list \<Rightarrow> paper list \<Rightarrow> (string \<times> paper) list" where
  \<comment> \<open>\<open>resultMap\<close> after the three \<open>forEach\<close> loops\<close>
  "merged_map semRes kwRes grRes =
     foldl add_graph (foldl add_keyword (foldl add_semantic [] semRes) kwRes) grRes"

definition combineSearchResults :: "paper list \<Rightarrow> paper list \<Rightarrow> paper list \<Rightarrow> paper list" where
  \<comment> \<open>the final \<open>sort((a, b) => b.combinedScore - a.combinedScore)\<close> is stable\<close>
  "combineSearchResults semRes kwRes grRes =
     sort_key (\<lambda>p. - num_or0 (combinedScore p))
       (map add_bonus (map_values (merged_map semRes kwRes grRes)))"

definition hybridSearch ::
  "neo4j_service \<Rightarrow> string \<Rightarrow> nat \<Rightarrow> string option \<Rightarrow> failure + hybrid_result" where
  \<comment> \<open>\<open>Promise.all\<close> rejects when one of the three searches rejects\<close>
  "hybridSearch this queryText limit topic =
     (case semanticSearch this queryText limit topic of
        Inl e \<Rightarrow> Inl e
      | Inr semRes \<Rightarrow>
          (case keywordSearch this queryText limit topic of
             Inl e \<Rightarrow> Inl e
           | Inr kwRes \<Rightarrow>
               (case graphSearch this queryText limit topic of
                  Inl e \<Rightarrow> Inl e
                | Inr grRes \<Rightarrow>
                    Inr \<lparr>semanticResults = semRes, keywordResults = kwRes,
                         graphResults = grRes,
                         combinedResults = take limit (combineSearchResults semRes kwRes grRes)\<rparr>)))"

definition getPaperFullContent :: "neo4j_service \<Rightarrow> string \<Rightarrow> failure + content_result" where
  "getPaperFullContent this paperId' =
     (if \<not> connected' this \<or> driver this = None then Inl (Thrown ''Neo4j not connected'')
      else case driver this of
             None \<Rightarrow> Inl (Thrown ''Neo4j not connected'')
           | Some d \<Rightarrow>
               (case session_open d of
                  Some e \<Rightarrow> Inl e
                | None \<Rightarrow>
                    let result = run_content d paperId'
                    in case session_close d of Some e \<Rightarrow> Inl e | None \<Rightarrow> result))"

section \<open>The question-answering service (graphRagService)\<close>

text \<open>
  The text generator and \<open>JSON.parse\<close> are collaborators of the service. A prompt is
  kept as the values interpolated into its template. \<open>groq_chat\<close> is the chat
  completion call; it yields the content of the first choice, if any, or the exception.
\<close>

record question_analysis =
  qa_type :: json
  entities :: json
  searchTerms :: json
  intent :: json

datatype prompt =
  AnalysisPrompt string
| AnswerPrompt string "passage list" question_analysis "(string \<times> string) list"
| ReasoningPrompt string string
| FollowUpPrompt string string "string list"

record rag_env =
  neo4j :: neo4j_service
  groq_chat :: "prompt \<Rightarrow> nat \<Rightarrow> real \<Rightarrow> failure + string option"
  JSON_parse :: "string \<Rightarrow> json option"

record source_ref =
  src_id :: string
  src_title :: string
  src_authors :: "string list"
  src_year :: "real option"
  src_citationCount :: "real option"
  src_relevance :: "real option"
  src_url :: "string option"

record rag_context =
  relevantPapers :: "paper list"
  searchQuery :: string
  searchType :: string
  totalPapersFound :: nat
  ctx_confidence :: int

record rag_response =
  answer :: string
  response_sources :: "source_ref list"
  response_context :: rag_context
  suggestedQuestions :: "string list"
  reasoning :: string

definition generateCompletion :: "rag_env \<Rightarrow> prompt \<Rightarrow> nat \<Rightarrow> real \<Rightarrow> failure + string" where
  \<comment> \<open>\<open>if (!content) throw new Error('No response from Groq')\<close>\<close>
  "generateCompletion env p maxTokens temperature =
     (case groq_chat env p maxTokens temperature of
        Inl e \<Rightarrow> Inl e
      | Inr content \<Rightarrow>
          (case content of
             None \<Rightarrow> Inl (Thrown ''No response from Groq'')
           | Some c \<Rightarrow> if c = [] then Inl (Thrown ''No response from Groq'') else Inr c))"

subsection \<open>Question analysis\<close>

definition json_truthy :: "json \<Rightarrow> bool" where
  "json_truthy v =
     (case v of JNull \<Rightarrow> False | JBool b \<Rightarrow> b | JNum x \<Rightarrow> x \<noteq> 0 | JStr s \<Rightarrow> s \<noteq> []
      | JArr xs \<Rightarrow> True | JObj kvs \<Rightarrow> True)"

definition get_prop :: "json \<Rightarrow> string \<Rightarrow> json option" where
  \<comment> \<open>\<open>analysis.name\<close> for a parsed value other than \<open>null\<close>, on the four names read\<close>
  "get_prop v name = (case v of JObj kvs \<Rightarrow> map_of kvs name | _ \<Rightarrow> None)"

definition or_default :: "json option \<Rightarrow> json \<Rightarrow> json" where
  \<comment> \<open>\<open>x || d\<close>\<close>
  "or_default x d = (case x of None \<Rightarrow> d | Some v \<Rightarrow> if json_truthy v then v else d)"

definition stopWords :: "string list" where
  "stopWords =
     [''what'', ''how'', ''where'', ''when'', ''why'', ''who'', ''the'', ''a'', ''an'', ''and'',
      ''or'', ''but'', ''in'', ''on'', ''at'', ''to'', ''for'', ''of'', ''with'', ''by'']"

definition strip_punctuation :: "string \<Rightarrow> string" where
  \<comment> \<open>\<open>.replace(/[^\w\s]/g, ' ')\<close>\<close>
  "strip_punctuation s = map (\<lambda>c. if is_word_char c \<or> is_js_space c then c else CHR '' '') s"

definition extractSimpleEntities :: "string \<Rightarrow> string list" where
  "extractSimpleEntities question =
     take 5
       (filter (\<lambda>word. length word > 3 \<and> word \<notin> set stopWords)
          (split_runs is_js_space (strip_punctuation (toLowerCase question))))"

definition heuristic_analysis :: "string \<Rightarrow> question_analysis" where
  \<comment> \<open>the object both \<open>catch\<close> blocks of \<open>analyzeQuestion\<close> return\<close>
  "heuristic_analysis question =
     \<lparr>qa_type = JStr ''factual'',
      entities = JArr (map JStr (extractSimpleEntities question)),
      searchTerms = JArr [JStr question],
      intent = JStr ''research query''\<rparr>"

definition analyzeQuestion :: "rag_env \<Rightarrow> string \<Rightarrow> question_analysis" where
  "analyzeQuestion env question =
     (case generateCompletion env (AnalysisPrompt question) 300 0.1 of
        Inl error \<Rightarrow> heuristic_analysis question
      | Inr response \<Rightarrow>
          (case JSON_parse env response of
             None \<Rightarrow> heuristic_analysis question
           | Some analysis \<Rightarrow>
               if analysis = JNull then heuristic_analysis question
               else
                 \<lparr>qa_type = or_default (get_prop analysis ''type'') (JStr ''factual''),
                  entities = or_default (get_prop analysis ''entities'') (JArr []),
                  searchTerms = or_default (get_prop analysis ''searchTerms'') (JArr [JStr question]),
                  intent = or_default (get_prop analysis ''intent'') (JStr ''general research query'')\<rparr>))"

subsection \<open>String conversion of parsed values\<close>

text \<open>
  The analysis fields are interpolated into a log line and into the answer prompt.
  \<open>ToString\<close> of a parsed object calls its \<open>toString\<close> property when that is
  callable and \<open>valueOf\<close> otherwise; a parsed object with an own property
  \<open>toString\<close> (never a function) therefore has no primitive value and the conversion
  throws a \<open>TypeError\<close>. An array converts by joining its elements, \<open>null\<close>
  elements giving the empty string. \<open>entities.join\<close> is only a function when
  \<open>entities\<close> is an array.
\<close>

fun to_string_throws :: "json \<Rightarrow> bool" where
  "to_string_throws (JObj kvs) = (''toString'' \<in> fst ` set kvs)"
| "to_string_throws (JArr xs) = (\<exists>x \<in> set xs. x \<noteq> JNull \<and> to_string_throws x)"
| "to_string_throws JNull = False"
| "to_string_throws (JBool b) = False"
| "to_string_throws (JNum x) = False"
| "to_string_throws (JStr s) = False"

definition join_throws :: "json \<Rightarrow> bool" where
  \<comment> \<open>\<open>questionAnalysis.entities.join(', ')\<close>\<close>
  "join_throws v =
     (case v of JArr xs \<Rightarrow> (\<exists>x \<in> set xs. x \<noteq> JNull \<and> to_string_throws x) | _ \<Rightarrow> True)"

subsection \<open>Content and passages\<close>

definition getPapersFullContent :: "rag_env \<Rightarrow> paper list \<Rightarrow> paper list" where
  "getPapersFullContent env papers =
     map (\<lambda>p.
            case getPaperFullContent (neo4j env) (pid p) of
              Inr c \<Rightarrow>
                p\<lparr>fullContent := cr_content c, contentType := cr_contentType c,
                  hasFullContent := cr_hasFullContent c\<rparr>
            | Inl error \<Rightarrow>
                p\<lparr>fullContent := Some (TextContent (abstract p)),
                  contentType := Some ''text/plain'', hasFullContent := False\<rparr>)
       papers"

function chunks_from :: "string list \<Rightarrow> nat \<Rightarrow> string list" where
  \<comment> \<open>\<open>for (let i = 0; i < words.length; i += maxWords)\<close>; the source calls it with 500\<close>
  "chunks_from words maxWords =
     (if words = [] \<or> maxWords = 0 then []
      else
        let chunk = join_with '' '' (take maxWords words)
        in (if length (trim chunk) > 50 then [chunk] else [])
           @ chunks_from (drop maxWords words) maxWords)"
  by pat_completeness auto
termination
  by (relation "measure (\<lambda>(words, maxWords). length words)") auto

definition chunkText :: "string \<Rightarrow> nat \<Rightarrow> string list" where
  "chunkText text maxWords = chunks_from (split_runs is_js_space text) maxWords"

definition calculateTextRelevance :: "string \<Rightarrow> string \<Rightarrow> real" where
  "calculateTextRelevance text question =
     (let questionTerms =
            filter (\<lambda>w. length w > 3) (split_runs is_js_space (toLowerCase question));
          textLower = toLowerCase text;
          matches = length (filter (\<lambda>term. str_includes textLower term) questionTerms);
          totalTerms = length questionTerms
      in if totalTerms > 0 then real matches / real totalTerms else 0)"

definition or_text :: "string \<Rightarrow> string \<Rightarrow> string" where
  \<comment> \<open>\<open>s || d\<close> on strings\<close>
  "or_text s d = (if s = [] then d else s)"

definition content_truthy :: "content option \<Rightarrow> bool" where
  "content_truthy c =
     (case c of None \<Rightarrow> False | Some (TextContent s) \<Rightarrow> s \<noteq> [] | Some (BinaryContent b) \<Rightarrow> True)"

definition passages_of :: "paper \<Rightarrow> string \<Rightarrow> passage list" where
  \<comment> \<open>the passages one iteration of the loop of \<open>extractRelevantPassages\<close> pushes\<close>
  "passages_of p question =
     (if content_truthy (fullContent p) \<and> hasFullContent p
      then
        (case fullContent p of
           Some (TextContent text) \<Rightarrow>
             if contentType p = Some ''text/plain''
             then
               map (\<lambda>chunk.
                      \<lparr>paperId = pid p, paperTitle = title p, passage_content = chunk,
                       passage_relevance = calculateTextRelevance chunk question,
                       passage_source = ''full_text''\<rparr>)
                 (filter (\<lambda>chunk. calculateTextRelevance chunk question > 0.3)
                    (chunkText text 500))
             else
               [\<lparr>paperId = pid p, paperTitle = title p,
                 passage_content = or_text (abstract p) ''Abstract not available'',
                 passage_relevance = 0.8, passage_source = ''abstract''\<rparr>]
         | _ \<Rightarrow>
             [\<lparr>paperId = pid p, paperTitle = title p,
               passage_content = or_text (abstract p) ''Abstract not available'',
               passage_relevance = 0.8, passage_source = ''abstract''\<rparr>])
      else
        [\<lparr>paperId = pid p, paperTitle = title p,
          passage_content = or_text (abstract p) ''Content not available'',
          passage_relevance = 0.5, passage_source = ''abstract''\<rparr>])"

definition extractRelevantPassages :: "paper list \<Rightarrow> string \<Rightarrow> passage list" where
  "extractRelevantPassages papers question =
     take 10
       (sort_key (\<lambda>p. - passage_relevance p)
          (concat (map (\<lambda>p. passages_of p question) papers)))"

subsection \<open>Answer, follow-up questions and the pipeline\<close>

definition last_turns :: "(string \<times> string) list option \<Rightarrow> (string \<times> string) list" where
  \<comment> \<open>\<open>conversationHistory?.slice(-3)\<close>\<close>
  "last_turns h = (case h of None \<Rightarrow> [] | Some turns \<Rightarrow> drop (length turns - 3) turns)"

definition generateAnswer ::
  "rag_env \<Rightarrow> string \<Rightarrow> passage list \<Rightarrow> question_analysis
     \<Rightarrow> (string \<times> string) list option \<Rightarrow> failure + string \<times> string" where
  \<comment> \<open>the pair is \<open>{answer, reasoning}\<close>; the prompt is built before the \<open>try\<close>\<close>
  "generateAnswer env question passages questionAnalysis conversationHistory =
     (if to_string_throws (qa_type questionAnalysis) \<or> join_throws (entities questionAnalysis)
           \<or> to_string_throws (intent questionAnalysis)
      then Inl (Thrown ''TypeError: Cannot convert object to primitive value'')
      else
        let failed =
              (''I found relevant research papers but encountered an error while generating a comprehensive answer. The papers in your database contain information about your question, but I'm unable to process it fully at the moment.'',
               ''Answer generation failed due to LLM service error'')
        in case generateCompletion env
                  (AnswerPrompt question passages questionAnalysis (last_turns conversationHistory))
                  800 0.3 of
             Inl error \<Rightarrow> Inr failed
           | Inr response \<Rightarrow>
               (case generateCompletion env (ReasoningPrompt question response) 200 0.2 of
                  Inl error \<Rightarrow> Inr failed
                | Inr reasoning' \<Rightarrow> Inr (trim response, trim reasoning')))"

definition strip_enumeration :: "string \<Rightarrow> string" where
  \<comment> \<open>\<open>line.replace(/^\d+\.\s*/, '')\<close>\<close>
  "strip_enumeration line =
     (let rest = dropWhile is_digit line
      in if takeWhile is_digit line \<noteq> [] \<and> rest \<noteq> [] \<and> hd rest = CHR ''.''
         then dropWhile is_js_space (tl rest)
         else line)"

definition generateFollowUpQuestions ::
  "rag_env \<Rightarrow> string \<Rightarrow> string \<Rightarrow> paper list \<Rightarrow> string list" where
  "generateFollowUpQuestions env question answer' papers =
     (case generateCompletion env
             (FollowUpPrompt question answer' (map title (take 3 papers))) 200 0.5 of
        Inl error \<Rightarrow>
          [''Can you tell me more about the methodologies used in these studies?'',
           ''What are the practical applications of these research findings?'',
           ''Are there any recent developments in this research area?'']
      | Inr response \<Rightarrow>
          take 3
            (map (\<lambda>line. trim (strip_enumeration line))
               (filter (\<lambda>line. length (trim line) > 10) (split_on newline response))))"

definition source_relevance :: "paper \<Rightarrow> real option" where
  \<comment> \<open>\<open>p.similarity || p.relevance || p.combinedScore\<close>\<close>
  "source_relevance p =
     (if truthy (similarity p) then similarity p
      else if truthy (relevance p) then relevance p
      else combinedScore p)"

definition source_of :: "paper \<Rightarrow> source_ref" where
  "source_of p =
     \<lparr>src_id = pid p, src_title = title p, src_authors = authors p, src_year = year p,
      src_citationCount = citationCount p, src_relevance = source_relevance p,
      src_url = url p\<rparr>"

subsection \<open>Confidence scores (graphRagService, AdvancedRAGService)\<close>

definition relevance_of :: "paper \<Rightarrow> real" where
  \<comment> \<open>\<open>p.similarity || p.relevance || p.combinedScore || 0\<close>\<close>
  "relevance_of p =
     (if truthy (similarity p) then num_or0 (similarity p)
      else if truthy (relevance p) then num_or0 (relevance p)
      else if truthy (combinedScore p) then num_or0 (combinedScore p)
      else 0)"

definition calculateConfidence :: "paper list \<Rightarrow> passage list \<Rightarrow> int" where
  "calculateConfidence papers passages =
     (if length papers = 0 then 0
      else
        let paperCount = min (real (length papers) / 5) 1 * 0.3;
            averageRelevance =
              (foldl (\<lambda>sum p. sum + relevance_of p) 0 papers / real (length papers)) * 0.4;
            passageCount = min (real (length passages) / 5) 1 * 0.2;
            contentAvailability =
              real (length (filter hasFullContent papers)) / real (length papers) * 0.1;
            confidence =
              foldl (\<lambda>sum val. sum + val) 0
                [paperCount, averageRelevance, passageCount, contentAvailability]
        in js_round (confidence * 100))"

definition calculateStepConfidence :: "paper list \<Rightarrow> passage list \<Rightarrow> int" where
  "calculateStepConfidence papers passages =
     (if length papers = 0 then 0
      else
        let paperCount = min (real (length papers) / 5) 1 * 30;
            contentQuality =
              real (length (filter hasFullContent papers)) / real (length papers) * 25;
            passageRelevance =
              (if length passages > 0
               then foldl (\<lambda>sum p. sum + passage_relevance p) 0 passages
                      / real (length passages) * 30
               else 0);
            citationStrength =
              foldl (\<lambda>sum p. sum + num_or0 (citationCount p)) 0 papers
                / real (length papers) / 100 * 15
        in js_round (foldl (\<lambda>sum val. sum + val) 0
                       [paperCount, contentQuality, passageRelevance, citationStrength]))"

definition calculateOverallConfidence :: "research_step list \<Rightarrow> int" where
  "calculateOverallConfidence steps =
     (if length steps = 0 then 0
      else
        let avgStepConfidence =
              foldl (\<lambda>sum step. sum + real_of_int (confidence step)) 0 steps
                / real (length steps);
            consistencyBonus = (if length steps > 1 then 10 else 0)
        in min 100 (js_round (avgStepConfidence + consistencyBonus)))"

text \<open>The mean of the step confidences, as the specification words it.\<close>

definition mean_confidence :: "research_step list \<Rightarrow> real" where
  "mean_confidence steps = real_of_int (sum_list (map confidence steps)) / real (length steps)"

definition step_with :: "int \<Rightarrow> research_step" where
  "step_with c = \<lparr>step_id = ''step-0'', step_question = ''q'', step_reasoning = ''r'',
     findings = [], confidence = c, nextSteps = []\<rparr>"

definition cited_paper :: "real \<Rightarrow> paper" where
  "cited_paper c = \<lparr>pid = ''p1'', title = ''t'', abstract = ''a'', authors = [], year = None, url = None,
     citationCount = Some c,
     similarity = None, relevance = None, connectionStrength = None, combinedScore = None,
     sources = [], fullContent = None, contentType = None, hasFullContent = False\<rparr>"

definition abstract_passage :: passage where
  "abstract_passage = \<lparr>paperId = ''p1'', paperTitle = ''t'', passage_content = ''a'',
     passage_relevance = 0.5, passage_source = ''abstract''\<rparr>"

definition error_response :: "string \<Rightarrow> rag_response" where
  \<comment> \<open>the object the \<open>catch\<close> block of \<open>askQuestion\<close> returns\<close>
  "error_response question =
     \<lparr>answer = ''I apologize, but I encountered an error while searching through the research papers. Please try rephrasing your question or check if the research database is available.'',
      response_sources = [],
      response_context =
        \<lparr>relevantPapers = [], searchQuery = question, searchType = ''error'',
         totalPapersFound = 0, ctx_confidence = 0\<rparr>,
      suggestedQuestions =
        [''Can you help me find papers on machine learning?'',
         ''What research topics are available in the database?'',
         ''Show me highly cited papers in the system''],
      reasoning = ''Error in processing - using fallback response''\<rparr>"

definition ask_pipeline ::
  "rag_env \<Rightarrow> string \<Rightarrow> string option \<Rightarrow> (string \<times> string) list option
     \<Rightarrow> failure + rag_response" where
  \<comment> \<open>the \<open>try\<close> block of \<open>askQuestion\<close>; its first log line interpolates
      \<open>questionAnalysis.type\<close> and \<open>questionAnalysis.entities.join(', ')\<close>\<close>
  "ask_pipeline env question topic conversationHistory =
     (let questionAnalysis = analyzeQuestion env question
      in if to_string_throws (qa_type questionAnalysis) \<or> join_throws (entities questionAnalysis)
         then Inl (Thrown ''TypeError: Cannot convert object to primitive value'')
         else
           (case hybridSearch (neo4j env) question 10 topic of
              Inl e \<Rightarrow> Inl e
            | Inr searchResults \<Rightarrow>
                let papersWithContent =
                      getPapersFullContent env (take 5 (combinedResults searchResults));
                    relevantPassages = extractRelevantPassages papersWithContent question
                in case generateAnswer env question relevantPassages questionAnalysis
                          conversationHistory of
                     Inl e \<Rightarrow> Inl e
                   | Inr answered \<Rightarrow>
                       let suggested =
                             generateFollowUpQuestions env question (fst answered)
                               papersWithContent
                       in Inr \<lparr>answer = fst answered,
                               response_sources = map source_of papersWithContent,
                               response_context =
                                 \<lparr>relevantPapers = papersWithContent, searchQuery = question,
                                  searchType = ''hybrid'',
                                  totalPapersFound = length (combinedResults searchResults),
                                  ctx_confidence =
                                    calculateConfidence papersWithContent relevantPassages\<rparr>,
                               suggestedQuestions = suggested,
                               reasoning = snd answered\<rparr>))"

definition askQuestion ::
  "rag_env \<Rightarrow> string \<Rightarrow> string option \<Rightarrow> (string \<times> string) list option \<Rightarrow> rag_response" where
  "askQuestion env question topic conversationHistory =
     (case ask_pipeline env question topic conversationHistory of
        Inr response \<Rightarrow> response
      | Inl error \<Rightarrow> error_response question)"

section \<open>The merge policy as the specification words it\<close>

text \<open>
  The weighted score a strategy contributes to a paper id (zero when the strategy did not
  return the paper), the number of strategies that returned it, and the combined score:
  the sum of the weighted scores plus a bonus of 0.1 for every strategy beyond the first.
\<close>

definition weighted :: "(paper \<Rightarrow> real option) \<Rightarrow> real \<Rightarrow> paper list \<Rightarrow> string \<Rightarrow> real" where
  "weighted score weight res k =
     (case find (\<lambda>p. pid p = k) res of None \<Rightarrow> 0 | Some p \<Rightarrow> num_or0 (score p) * weight)"

definition sourceCount :: "paper list \<Rightarrow> paper list \<Rightarrow> paper list \<Rightarrow> string \<Rightarrow> nat" where
  "sourceCount semRes kwRes grRes k =
     (if k \<in> pid ` set semRes then 1 else 0) + (if k \<in> pid ` set kwRes then 1 else 0)
       + (if k \<in> pid ` set grRes then 1 else 0)"

definition spec_combinedScore :: "paper list \<Rightarrow> paper list \<Rightarrow> paper list \<Rightarrow> string \<Rightarrow> real" where
  "spec_combinedScore semRes kwRes grRes k =
     weighted similarity 0.5 semRes k + weighted relevance 0.3 kwRes k
       + weighted connectionStrength 0.2 grRes k
       + (if sourceCount semRes kwRes grRes k > 1
          then 0.1 * (real (sourceCount semRes kwRes grRes k) - 1) else 0)"

section \<open>Auxiliary notions for the proofs\<close>

text \<open>
  \<open>keyed\<close> is the invariant of \<open>resultMap\<close>: keys are distinct, and every entry is
  stored under its own id and carries a score. \<open>entry_score\<close> and \<open>entry_count\<close> read
  the score and the number of sources of a looked-up entry; \<open>occurrences\<close> lists the rows
  of a result list with a given id; \<open>bonus\<close> is the multi-source bonus for a number of
  sources.
\<close>

definition keyed :: "(string \<times> paper) list \<Rightarrow> bool" where
  "keyed m = (distinct (map fst m) \<and> (\<forall>(k, e) \<in> set m. pid e = k \<and> combinedScore e \<noteq> None))"

definition entry_score :: "paper option \<Rightarrow> real" where
  "entry_score x = (case x of None \<Rightarrow> 0 | Some e \<Rightarrow> num_or0 (combinedScore e))"

definition entry_count :: "paper option \<Rightarrow> nat" where
  "entry_count x = (case x of None \<Rightarrow> 0 | Some e \<Rightarrow> length (sources e))"

definition occurrences :: "paper list \<Rightarrow> string \<Rightarrow> paper list" where
  "occurrences res k = filter (\<lambda>p. pid p = k) res"

definition bonus :: "nat \<Rightarrow> real" where
  "bonus n = (if n > 1 then 0.1 * (real n - 1) else 0)"

section \<open>Concrete inputs\<close>

text \<open>
  Three papers as in the retrieval scenario of the specification: A is found by the
  semantic search only, B by the keyword search only, C by both. \<open>demo_service\<close> is a
  connected store answering with these lists; \<open>down_service\<close> is a store whose
  connection failed; \<open>two_topic_service\<close> is a connected store whose keyword query
  returns the paper P once for each of its two topics. The environments differ in what
  the text generator and the parser reply; in \<open>unreachable_env\<close> the store counts as
  connected and cannot open a session.
\<close>

definition scored_paper :: "string \<Rightarrow> real option \<Rightarrow> real option \<Rightarrow> real option \<Rightarrow> paper" where
  "scored_paper i sim rel strength =
     \<lparr>pid = i, title = i, abstract = [], authors = [], year = None, url = None,
      citationCount = None, similarity = sim, relevance = rel, connectionStrength = strength,
      combinedScore = None, sources = [], fullContent = None, contentType = None,
      hasFullContent = False\<rparr>"

definition demo_semantic :: "paper list" where
  "demo_semantic = [scored_paper ''A'' (Some 0.8) None None, scored_paper ''C'' (Some 0.6) None None]"

definition demo_keyword :: "paper list" where
  "demo_keyword = [scored_paper ''C'' None (Some 3) None, scored_paper ''B'' None (Some 2) None]"

definition duplicate_keyword :: "paper list" where
  "duplicate_keyword = [scored_paper ''P'' None (Some 1) None, scored_paper ''P'' None (Some 1) None]"

definition demo_driver :: driver where
  "demo_driver =
     \<lparr>session_open = None, session_close = None,
      run_keyword = (\<lambda>queryText limit topic. Inr (take limit demo_keyword)),
      run_semantic = (\<lambda>queryEmbedding limit topic. Inr (take limit demo_semantic)),
      run_graph = (\<lambda>seedIds limit topic. Inr []),
      run_content = (\<lambda>paperId. Inl (Thrown ''Paper not found''))\<rparr>"

definition demo_service :: neo4j_service where
  "demo_service = \<lparr>connected' = True, driver = Some demo_driver\<rparr>"

definition down_service :: neo4j_service where
  "down_service = \<lparr>connected' = False, driver = Some demo_driver\<rparr>"

definition quiet_env :: rag_env where
  "quiet_env =
     \<lparr>neo4j = \<lparr>connected' = False, driver = None\<rparr>,
      groq_chat = (\<lambda>p maxTokens temperature. Inr (Some ''ok'')),
      JSON_parse = (\<lambda>s. None)\<rparr>"

definition failing_env :: rag_env where
  "failing_env =
     \<lparr>neo4j = \<lparr>connected' = False, driver = None\<rparr>,
      groq_chat = (\<lambda>p maxTokens temperature. Inl (Thrown ''Groq API error'')),
      JSON_parse = (\<lambda>s. None)\<rparr>"

definition string_entities_env :: rag_env where
  "string_entities_env =
     \<lparr>neo4j = \<lparr>connected' = False, driver = None\<rparr>,
      groq_chat = (\<lambda>p maxTokens temperature. Inr (Some ''{}'')),
      JSON_parse = (\<lambda>s. Some (JObj [(''entities'', JStr ''attention'')]))\<rparr>"

definition helpful_env :: rag_env where
  "helpful_env =
     \<lparr>neo4j = \<lparr>connected' = False, driver = None\<rparr>,
      groq_chat = (\<lambda>p maxTokens temperature. Inr (Some ''1. Which papers study attention?'')),
      JSON_parse = (\<lambda>s. None)\<rparr>"

definition two_topic_driver :: driver where
  \<comment> \<open>the keyword query returns one row per topic of the paper \<open>P\<close>\<close>
  "two_topic_driver =
     \<lparr>session_open = None, session_close = None,
      run_keyword = (\<lambda>queryText limit topic. Inr (take limit duplicate_keyword)),
      run_semantic = (\<lambda>queryEmbedding limit topic. Inr []),
      run_graph = (\<lambda>seedIds limit topic. Inr []),
      run_content = (\<lambda>paperId. Inl (Thrown ''Paper not found''))\<rparr>"

definition two_topic_service :: neo4j_service where
  "two_topic_service = \<lparr>connected' = True, driver = Some two_topic_driver\<rparr>"

definition unreachable_env :: rag_env where
  \<comment> \<open>the service believes it is connected, and opening a session throws\<close>
  "unreachable_env =
     \<lparr>neo4j = \<lparr>connected' = True,
               driver = Some (demo_driver\<lparr>session_open := Some (Thrown ''Pool is closed'')\<rparr>)\<rparr>,
      groq_chat = (\<lambda>p maxTokens temperature. Inr (Some ''ok'')),
      JSON_parse = (\<lambda>s. None)\<rparr>"

definition object_entities_env :: rag_env where
  "object_entities_env =
     \<lparr>neo4j = \<lparr>connected' = False, driver = None\<rparr>,
      groq_chat = (\<lambda>p maxTokens temperature. Inr (Some ''{}'')),
      JSON_parse = (\<lambda>s. Some (JObj [(''entities'', JArr [JObj [(''toString'', JNum 1)]])]))\<rparr>"

definition object_intent_env :: rag_env where
  "object_intent_env =
     \<lparr>neo4j = \<lparr>connected' = False, driver = None\<rparr>,
      groq_chat = (\<lambda>p maxTokens temperature. Inr (Some ''{}'')),
      JSON_parse = (\<lambda>s. Some (JObj [(''intent'', JObj [(''toString'', JNull)])]))\<rparr>"

section \<open>Basic facts\<close>

lemma num_or0_simps [simp]: "num_or0 None = 0" "num_or0 (Some x) = x"
  by (simp_all add: num_or0_def)

lemma foldl_add_sum_list:
  "foldl (\<lambda>sum x. sum + f x) a xs = a + sum_list (map f xs)" for a :: real
  by (induction xs arbitrary: a) simp_all

lemma avg_is_mean:
  "foldl (\<lambda>sum step. sum + real_of_int (confidence step)) 0 steps / real (length steps)
     = mean_confidence steps"
proof -
  have "sum_list (map (\<lambda>s. real_of_int (confidence s)) steps)
          = real_of_int (sum_list (map confidence steps))"
    by (induction steps) simp_all
  then show ?thesis
    by (simp add: foldl_add_sum_list mean_confidence_def)
qed

subsection \<open>Insertion-ordered maps\<close>

lemma map_of_map_set: "map_of (map_set m k v) k' = (if k' = k then Some v else map_of m k')"
  by (induction m) auto

lemma keys_map_set:
  "map fst (map_set m k v) = (if k \<in> set (map fst m) then map fst m else map fst m @ [k])"
  by (induction m) (force simp: image_iff)+

lemma distinct_map_set: "distinct (map fst m) \<Longrightarrow> distinct (map fst (map_set m k v))"
  by (simp add: keys_map_set)

lemma set_map_set: "set (map_set m k v) \<subseteq> insert (k, v) (set m)"
  by (induction m) (auto split: if_splits)

lemma map_set_nonempty: "map_set m k v \<noteq> []"
  by (induction m k v rule: map_set.induct) auto

section \<open>The embedding\<close>

subsection \<open>Where the writes land\<close>

lemma js_rem_range: "0 \<le> a \<Longrightarrow> 0 < b \<Longrightarrow> 0 \<le> js_rem a b \<and> js_rem a b < b"
  by (cases "a = 0") (simp_all add: js_rem_def)

lemma enhancedHash_nonneg: "0 \<le> enhancedHash str"
  by (simp add: enhancedHash_def)

lemma simpleHash_nonneg: "0 \<le> simpleHash str"
  by (simp add: simpleHash_def)

lemma term_frequency_writes_range:
  "(i, v) \<in> set (term_frequency_writes freqs dimIndex maxFreq) \<Longrightarrow> 0 \<le> i \<and> i < 256 \<and> 0 \<le> v"
proof (induction freqs dimIndex maxFreq rule: term_frequency_writes.induct)
  case (1 dimIndex maxFreq)
  then show ?case by simp
next
  case (2 word freq rest dimIndex maxFreq)
  have a: "0 \<le> js_rem (int dimIndex) 256 \<and> js_rem (int dimIndex) 256 < 256"
    by (rule js_rem_range) simp_all
  have b: "0 \<le> js_rem (enhancedHash word) 256 \<and> js_rem (enhancedHash word) 256 < 256"
    by (rule js_rem_range) (simp_all add: enhancedHash_nonneg)
  show ?case
  proof (cases "dimIndex \<ge> 256")
    case True
    then show ?thesis using 2 by simp
  next
    case False
    then show ?thesis
      using 2 a b by (auto simp: Let_def)
  qed
qed

lemma ngram_writes_range:
  "(i, v) \<in> set (ngram_writes words) \<Longrightarrow> 256 \<le> i \<and> i < 384 \<and> 0 \<le> v"
proof -
  assume "(i, v) \<in> set (ngram_writes words)"
  then obtain ngram where i: "i = 256 + js_rem (enhancedHash ngram) 128"
    and v: "v = 1 / sqrt (real (length (split_on (CHR '' '') ngram)))"
    by (auto simp: ngram_writes_def)
  have "0 \<le> js_rem (enhancedHash ngram) 128 \<and> js_rem (enhancedHash ngram) 128 < 128"
    by (rule js_rem_range) (simp_all add: enhancedHash_nonneg)
  then show ?thesis using i v by simp
qed

lemma semantic_writes_range:
  "(i, v) \<in> set (semantic_writes features) \<Longrightarrow> 384 \<le> i \<and> i < 512"
  by (auto simp: semantic_writes_def in_set_enumerate_eq)

lemma add_all_succeeds:
  "\<forall>(i, v) \<in> set ws. 0 \<le> i \<and> i < int (length embedding) \<Longrightarrow>
     \<exists>embedding'. add_all embedding ws = Inr embedding' \<and> length embedding' = length embedding"
  by (induction embedding ws rule: add_all.induct) auto

lemma set_all_succeeds:
  "\<forall>(i, v) \<in> set ws. 0 \<le> i \<and> i < int (length embedding) \<Longrightarrow>
     \<exists>embedding'. set_all embedding ws = Inr embedding' \<and> length embedding' = length embedding"
  by (induction embedding ws rule: set_all.induct) auto

lemma add_all_grows:
  "add_all embedding ws = Inr embedding' \<Longrightarrow> \<forall>(i, v) \<in> set ws. 0 \<le> v \<Longrightarrow>
     length embedding' = length embedding \<and> (\<forall>j < length embedding. embedding ! j \<le> embedding' ! j)"
proof (induction embedding ws rule: add_all.induct)
  case (1 embedding)
  then show ?case by simp
next
  case (2 embedding i v ws)
  let ?e = "embedding[nat i := embedding ! nat i + v]"
  from "2.prems" have ok: "0 \<le> i \<and> i < int (length embedding)" and rest: "add_all ?e ws = Inr embedding'"
    by (auto split: if_splits)
  have ih: "length embedding' = length ?e \<and> (\<forall>j < length ?e. ?e ! j \<le> embedding' ! j)"
    using "2.IH" ok rest "2.prems"(2) by simp
  have "embedding ! j \<le> ?e ! j" if "j < length embedding" for j
    using that "2.prems"(2) by (cases "j = nat i") simp_all
  then show ?case using ih by (auto intro: order_trans)
qed

lemma set_all_keeps:
  "set_all embedding ws = Inr embedding' \<Longrightarrow> \<forall>(i, v) \<in> set ws. int j < i \<Longrightarrow>
     length embedding' = length embedding \<and> embedding' ! j = embedding ! j"
proof (induction embedding ws rule: set_all.induct)
  case (1 embedding)
  then show ?case by simp
next
  case (2 embedding i v ws)
  from "2.prems" have ok: "0 \<le> i \<and> i < int (length embedding)"
    and rest: "set_all (embedding[nat i := v]) ws = Inr embedding'"
    by (auto split: if_splits)
  have "int j < i" using "2.prems"(2) by simp
  then have "nat i \<noteq> j" by linarith
  then show ?case using "2.IH" ok rest "2.prems"(2) by simp
qed

lemma length_normalize [simp]: "length (normalize_vector embedding) = length embedding"
  by (simp add: normalize_vector_def Let_def)

lemma enhanced_writes_succeed:
  assumes len: "length embedding = 512"
  shows "\<exists>e1 e2 e3.
           add_all embedding (term_frequency_writes freqs d maxFreq) = Inr e1
         \<and> add_all e1 (ngram_writes words) = Inr e2
         \<and> set_all e2 (semantic_writes features) = Inr e3
         \<and> length e1 = 512 \<and> length e2 = 512 \<and> length e3 = 512"
proof -
  have "\<forall>(i, v) \<in> set (term_frequency_writes freqs d maxFreq). 0 \<le> i \<and> i < int (length embedding)"
    using term_frequency_writes_range [of _ _ freqs d maxFreq] len by fastforce
  then obtain e1 where e1: "add_all embedding (term_frequency_writes freqs d maxFreq) = Inr e1"
      "length e1 = 512"
    using add_all_succeeds len by metis
  have "\<forall>(i, v) \<in> set (ngram_writes words). 0 \<le> i \<and> i < int (length e1)"
    using ngram_writes_range [of _ _ words] e1(2) by fastforce
  then obtain e2 where e2: "add_all e1 (ngram_writes words) = Inr e2" "length e2 = 512"
    using add_all_succeeds e1(2) by metis
  have "\<forall>(i, v) \<in> set (semantic_writes features). 0 \<le> i \<and> i < int (length e2)"
    using semantic_writes_range [of _ _ features] e2(2) by fastforce
  then obtain e3 where e3: "set_all e2 (semantic_writes features) = Inr e3" "length e3 = 512"
    using set_all_succeeds e2(2) by metis
  show ?thesis using e1 e2 e3 by blast
qed

lemma enhanced_returns:
  "\<exists>v. generateEnhancedEmbedding text = Inr v \<and> length v = 512"
proof (cases "text = [] \<or> length (trim text) = 0 \<or> length (words_of text) = 0")
  case True
  then show ?thesis by (auto simp: generateEnhancedEmbedding_def Let_def)
next
  case False
  obtain e1 e2 e3 where
    "add_all (replicate 512 0)
       (term_frequency_writes (wordFreq (words_of text)) 0 (max_values (wordFreq (words_of text))))
       = Inr e1"
    "add_all e1 (ngram_writes (words_of text)) = Inr e2"
    "set_all e2 (semantic_writes (extractSemanticFeatures text (words_of text))) = Inr e3"
    "length e3 = 512"
    using enhanced_writes_succeed [of "replicate 512 0"] by (metis length_replicate)
  then show ?thesis
    using False by (simp add: generateEnhancedEmbedding_def Let_def)
qed

lemma embeddings_primary: "generateEmbeddings this text = generateEnhancedEmbedding text"
  using enhanced_returns [of "text"] by (auto simp: generateEmbeddings_def)

text \<open>
  Claim C10. Every array write of \<open>generateEnhancedEmbedding\<close> targets an index inside
  the 512-entry vector: the term-frequency writes land in [0,256), the n-gram writes in
  [256,384) and the semantic-feature writes in [384,512), whatever the word frequencies,
  the words and the features are; \<open>enhancedHash\<close> is never negative; and the embedding
  is computed without an out-of-bounds write and has 512 entries.
\<close>

theorem embedding_writes_in_bounds:
  "(\<forall>(i, v) \<in> set (term_frequency_writes freqs dimIndex maxFreq). 0 \<le> i \<and> i < 256)
   \<and> (\<forall>(i, v) \<in> set (ngram_writes words). 256 \<le> i \<and> i < 384)
   \<and> (\<forall>(i, v) \<in> set (semantic_writes features). 384 \<le> i \<and> i < 512)
   \<and> 0 \<le> enhancedHash str
   \<and> (\<exists>v. generateEnhancedEmbedding text = Inr v \<and> length v = 512)"
proof (intro conjI)
  show "\<forall>(i, v) \<in> set (term_frequency_writes freqs dimIndex maxFreq). 0 \<le> i \<and> i < 256"
    using term_frequency_writes_range by fastforce
  show "\<forall>(i, v) \<in> set (ngram_writes words). 256 \<le> i \<and> i < 384"
    using ngram_writes_range by fastforce
  show "\<forall>(i, v) \<in> set (semantic_writes features). 384 \<le> i \<and> i < 512"
    using semantic_writes_range by fastforce
  show "0 \<le> enhancedHash str" by (rule enhancedHash_nonneg)
  show "\<exists>v. generateEnhancedEmbedding text = Inr v \<and> length v = 512" by (rule enhanced_returns)
qed

theorem embedding_writes_in_bounds_witness:
  "(0, 1) \<in> set (term_frequency_writes [(''www'', 1)] 0 1) \<and> (0 :: int) \<le> 0 \<and> (0 :: int) < 256
   \<and> ngram_writes [''www'', ''sss''] \<noteq> []
   \<and> list_all (\<lambda>(i, v). 256 \<le> i \<and> i < 384) (ngram_writes [''www'', ''sss''])
   \<and> (384, 5) \<in> set (semantic_writes [5]) \<and> (384 :: int) < 512"
proof -
  have a: "(0, 1) \<in> set (term_frequency_writes [(''www'', 1)] 0 1)"
    by (simp add: Let_def js_rem_def)
  have b: "ngram_writes [''www'', ''sss''] \<noteq> []"
    by (simp add: ngram_writes_def generateNGrams_def enumerate_eq_zip)
  have c: "(384, 5) \<in> set (semantic_writes [5])"
    by (simp add: semantic_writes_def enumerate_eq_zip)
  have "\<forall>(i, v) \<in> set (ngram_writes [''www'', ''sss'']). 256 \<le> i \<and> i < 384"
    using embedding_writes_in_bounds [of "[(''www'', 1)]" 0 1 "[''www'', ''sss'']" "[5]" "[]" "[]"]
    by blast
  then have "list_all (\<lambda>(i, v). 256 \<le> i \<and> i < 384) (ngram_writes [''www'', ''sss''])"
    by (simp only: list_all_iff)
  then show ?thesis
    using a b c by simp
qed

subsection \<open>Normalisation\<close>

lemma real_member_le_sum_list:
  "x \<in> set xs \<Longrightarrow> \<forall>y \<in> set xs. 0 \<le> y \<Longrightarrow> x \<le> sum_list xs" for x :: real
proof (induction xs)
  case Nil
  then show ?case by simp
next
  case (Cons a xs)
  have "0 \<le> sum_list xs" using Cons.prems(2) by (simp add: sum_list_nonneg)
  then show ?case using Cons by auto
qed

lemma magnitude_of_sum: "magnitude_of embedding = sqrt (\<Sum>x\<leftarrow>embedding. x * x)"
  by (simp add: magnitude_of_def foldl_add_sum_list)

lemma sum_squares_scaled:
  "(\<Sum>x\<leftarrow>map (\<lambda>val. val / m) xs. x\<^sup>2) = (\<Sum>x\<leftarrow>xs. x * x) / (m * m)" for m :: real
  by (induction xs) (simp_all add: power2_eq_square add_divide_distrib)

lemma normalize_unit:
  assumes "j < length embedding" "embedding ! j \<noteq> 0"
  shows "sqrt (\<Sum>x\<leftarrow>normalize_vector embedding. x\<^sup>2) = 1"
proof -
  let ?s = "\<Sum>x\<leftarrow>embedding. x * x"
  have "embedding ! j * embedding ! j \<in> set (map (\<lambda>x. x * x) embedding)"
    using assms(1) nth_mem [of j embedding] by simp
  then have "embedding ! j * embedding ! j \<le> ?s"
    by (rule real_member_le_sum_list) auto
  moreover have "0 < embedding ! j * embedding ! j"
    using assms(2) by (simp add: zero_less_mult_iff) linarith
  ultimately have pos: "0 < ?s" by linarith
  then have m: "0 < magnitude_of embedding" by (simp add: magnitude_of_sum)
  have sq: "magnitude_of embedding * magnitude_of embedding = ?s"
    using pos by (simp add: magnitude_of_sum)
  have "(\<Sum>x\<leftarrow>map (\<lambda>val. val / magnitude_of embedding) embedding. x\<^sup>2)
      = ?s / (magnitude_of embedding * magnitude_of embedding)"
    by (rule sum_squares_scaled)
  then have "(\<Sum>x\<leftarrow>normalize_vector embedding. x\<^sup>2) = 1"
    using m pos sq by (simp add: normalize_vector_def Let_def)
  then show ?thesis by simp
qed

lemma normalize_zero:
  "magnitude_of embedding = 0 \<Longrightarrow> normalize_vector embedding = replicate (length embedding) 0"
  by (simp add: normalize_vector_def Let_def map_replicate_const)

subsection \<open>Word frequencies and blank texts\<close>

lemma count_word_positive:
  "\<forall>(k, f) \<in> set m. 1 \<le> f \<Longrightarrow> \<forall>(k, f) \<in> set (count_word m w). 1 \<le> f"
  unfolding count_word_def using set_map_set [of m w] by fastforce

lemma wordFreq_positive_aux:
  "\<forall>(k, f) \<in> set m. 1 \<le> f \<Longrightarrow> \<forall>(k, f) \<in> set (foldl count_word m ws). 1 \<le> f"
proof (induction ws arbitrary: m)
  case Nil
  then show ?case by simp
next
  case (Cons a ws)
  show ?case
    using Cons.IH [OF count_word_positive [OF Cons.prems]] by simp
qed

lemma foldl_count_word_nonempty: "m \<noteq> [] \<Longrightarrow> foldl count_word m ws \<noteq> []"
  by (induction ws arbitrary: m) (simp_all add: count_word_def map_set_nonempty)

lemma foldl_max_ge: "x \<in> set xs \<Longrightarrow> x \<le> foldl max a xs" for x :: nat
proof (induction xs arbitrary: a)
  case Nil
  then show ?case by simp
next
  case (Cons y ys)
  have mono: "b \<le> foldl max b ys" for b
  proof (induction ys arbitrary: b)
    case Nil
    then show ?case by simp
  next
    case (Cons z zs)
    have "max b z \<le> foldl max (max b z) zs" by (rule Cons.IH)
    then show ?case by simp
  qed
  show ?case
  proof (cases "x = y")
    case True
    then show ?thesis using mono [of "max a y"] by simp
  next
    case False
    then show ?thesis using Cons by simp
  qed
qed

lemma wordFreq_first:
  assumes "words \<noteq> []"
  shows "\<exists>word freq rest. wordFreq words = (word, freq) # rest \<and> 1 \<le> freq
           \<and> freq \<le> max_values (wordFreq words)"
proof -
  obtain w ws where words: "words = w # ws" using assms by (cases words) auto
  have ne: "wordFreq words \<noteq> []"
    unfolding wordFreq_def words by (simp add: foldl_count_word_nonempty count_word_def)
  then obtain word freq rest where shape: "wordFreq words = (word, freq) # rest"
    by (cases "wordFreq words") auto
  have "\<forall>(k, f) \<in> set (wordFreq words). 1 \<le> f"
    unfolding wordFreq_def by (rule wordFreq_positive_aux) simp
  then have pos: "1 \<le> freq" using shape by simp
  have "freq \<in> set (map_values (wordFreq words))"
    using shape by (simp add: map_values_def)
  then have "freq \<le> max_values (wordFreq words)"
    unfolding max_values_def by (rule foldl_max_ge)
  then show ?thesis using shape pos by blast
qed

lemma trim_spaces: "\<forall>c \<in> set s. is_js_space c \<Longrightarrow> trim s = []"
proof -
  assume "\<forall>c \<in> set s. is_js_space c"
  then have d: "dropWhile is_js_space s = []" by simp
  show ?thesis unfolding trim_def d by simp
qed

lemma trim_empty_spaces: "trim s = [] \<Longrightarrow> \<forall>c \<in> set s. is_js_space c"
proof -
  assume t: "trim s = []"
  let ?x = "dropWhile is_js_space s"
  have "dropWhile is_js_space (rev ?x) = []"
    using t by (simp only: trim_def rev_is_Nil_conv)
  then have "\<forall>c \<in> set (rev ?x). is_js_space c"
    by (simp only: dropWhile_eq_Nil_conv)
  then have all: "\<forall>c \<in> set ?x. is_js_space c"
    by simp
  have "?x = []"
  proof (rule ccontr)
    assume ne: "?x \<noteq> []"
    then have "\<not> is_js_space (hd ?x)" by (rule hd_dropWhile)
    moreover have "hd ?x \<in> set ?x" using ne by simp
    ultimately show False using all by blast
  qed
  then show ?thesis by (simp add: dropWhile_eq_Nil_conv)
qed

lemma space_char_cleaned:
  assumes "is_js_space c"
  shows "(let l = js_lower_char c
          in if l = backslash \<or> l = CHR ''w'' \<or> l = CHR ''s'' then l else CHR '' '') = CHR '' ''"
proof -
  have low: "js_lower_char c = c"
    using assms by (auto simp: is_js_space_def js_lower_char_def Let_def)
  have "\<not> is_js_space backslash" "\<not> is_js_space (CHR ''w'')" "\<not> is_js_space (CHR ''s'')"
    by (simp_all add: is_js_space_def backslash_def)
  then have "c \<noteq> backslash \<and> c \<noteq> CHR ''w'' \<and> c \<noteq> CHR ''s''"
    using assms by blast
  then show ?thesis using low by simp
qed

lemma replace_space_runs_blank: "replace_space_runs (replicate n (CHR '' '')) = replicate n (CHR '' '')"
  by (induction n) (simp_all add: backslash_def)

lemma words_of_blank:
  assumes "trim text = []"
  shows "words_of text = []"
proof -
  have sp: "\<forall>c \<in> set text. is_js_space c" using assms by (rule trim_empty_spaces)
  have "map (\<lambda>c. let l = js_lower_char c
                 in if l = backslash \<or> l = CHR ''w'' \<or> l = CHR ''s'' then l else CHR '' '') text
          = map (\<lambda>c. CHR '' '') text"
    using sp by (intro map_cong refl) (simp add: space_char_cleaned)
  then have "replace_non_word_space (toLowerCase text) = replicate (length text) (CHR '' '')"
    by (simp add: replace_non_word_space_def toLowerCase_def comp_def Let_def map_replicate_const)
  then have "cleanText text = trim (replicate (length text) (CHR '' ''))"
    by (simp add: cleanText_def replace_space_runs_blank)
  also have "\<dots> = []"
    by (rule trim_spaces) (simp add: is_js_space_def)
  finally show ?thesis by (simp add: words_of_def)
qed

lemma enhanced_unit:
  assumes words: "words_of text \<noteq> []"
  shows "\<exists>v. generateEnhancedEmbedding text = Inr v \<and> length v = 512
           \<and> sqrt (\<Sum>x\<leftarrow>v. x\<^sup>2) = 1"
proof -
  let ?ws = "words_of text"
  have nonblank: "text \<noteq> []" "length (trim text) \<noteq> 0"
    using words words_of_blank [of "text"] by (auto simp: words_of_def cleanText_def toLowerCase_def
        replace_non_word_space_def trim_def)
  obtain word freq rest where shape: "wordFreq ?ws = (word, freq) # rest"
    and freq: "1 \<le> freq" "freq \<le> max_values (wordFreq ?ws)"
    using wordFreq_first [OF words] by blast
  let ?nf = "real freq / real (max_values (wordFreq ?ws))"
  have nf: "0 < ?nf" using freq by simp
  obtain tail where writes:
    "term_frequency_writes (wordFreq ?ws) 0 (max_values (wordFreq ?ws)) = (0, ?nf) # tail"
    unfolding shape [symmetric]
    using shape by (simp add: Let_def js_rem_def)
  obtain e1 e2 e3 where
    e1: "add_all (replicate 512 0)
       (term_frequency_writes (wordFreq ?ws) 0 (max_values (wordFreq ?ws))) = Inr e1"
    and e2: "add_all e1 (ngram_writes ?ws) = Inr e2"
    and e3: "set_all e2 (semantic_writes (extractSemanticFeatures text ?ws)) = Inr e3"
    and lens: "length e1 = 512" "length e2 = 512" "length e3 = 512"
    using enhanced_writes_succeed [of "replicate 512 0"] by (metis length_replicate)
  have tail_nonneg: "\<forall>(i, v) \<in> set tail. 0 \<le> v"
    using term_frequency_writes_range [of _ _ "wordFreq ?ws" 0 "max_values (wordFreq ?ws)"]
    unfolding writes by fastforce
  have "add_all ((replicate 512 0)[0 := ?nf]) tail = Inr e1"
    using e1 unfolding writes by simp
  then have "((replicate 512 0)[0 := ?nf]) ! 0 \<le> e1 ! 0"
    using add_all_grows [OF _ tail_nonneg] by fastforce
  then have a: "?nf \<le> e1 ! 0" by simp
  have "\<forall>(i, v) \<in> set (ngram_writes ?ws). 0 \<le> v"
    using ngram_writes_range [of _ _ ?ws] by fastforce
  then have b: "e1 ! 0 \<le> e2 ! 0"
    using add_all_grows [OF e2] lens by fastforce
  have "\<forall>(i, v) \<in> set (semantic_writes (extractSemanticFeatures text ?ws)). int 0 < i"
    using semantic_writes_range [of _ _ "extractSemanticFeatures text ?ws"] by fastforce
  then have c: "e3 ! 0 = e2 ! 0"
    using set_all_keeps [OF e3] by blast
  have "e3 ! 0 \<noteq> 0" using a b c nf by linarith
  then have "sqrt (\<Sum>x\<leftarrow>normalize_vector e3. x\<^sup>2) = 1"
    using normalize_unit [of 0 e3] lens by simp
  moreover have "generateEnhancedEmbedding text = Inr (normalize_vector e3)"
    using nonblank words e1 e2 e3 by (simp add: generateEnhancedEmbedding_def Let_def)
  moreover have "length (normalize_vector e3) = 512"
    using lens by simp
  ultimately show ?thesis by blast
qed

text \<open>
  Two parts of the norm claim hold of the code as it is: text made of white space only
  embeds to the all-zero vector of dimension 512, and normalising a vector of magnitude
  zero yields zeros, nothing being divided by zero (\<open>normalize_zero\<close>). The
  normalisation itself is right as well: whenever the tokeniser leaves a word, the
  vector has norm 1 (\<open>enhanced_unit\<close>).
\<close>

lemma blank_text_zero_vector:
  assumes "\<forall>c \<in> set text. is_js_space c"
  shows "generateEnhancedEmbedding text = Inr (replicate 512 0)"
proof -
  have "trim text = []" using assms by (rule trim_spaces)
  then show ?thesis by (simp add: generateEnhancedEmbedding_def Let_def)
qed

text \<open>
  Claim C3. The claim gives every text that is neither empty nor white space an
  embedding of L2 norm 1. The code does not: the regular expressions of the tokeniser
  are written with doubled backslashes, \<open>/[^\\w\\s]/g\<close> and \<open>/\\s+/g\<close>, so
  the first one blanks every character but the backslash and the letters \<open>w\<close> and
  \<open>s\<close>. For the query \<open>transformer attention\<close> the cleaned text is the single
  letter \<open>s\<close>, no token of more than two characters is left, and the embedding is the
  all-zero vector, of norm 0. The tokeniser of the sibling \<open>generateSimpleEmbedding\<close>,
  written with \<open>/\W+/\<close>, finds the two words of the same text.
\<close>

theorem plain_text_embeds_to_zero:
  "trim ''transformer attention'' = ''transformer attention''
   \<and> cleanText ''transformer attention'' = ''s''
   \<and> words_of ''transformer attention'' = []
   \<and> generateEnhancedEmbedding ''transformer attention'' = Inr (replicate 512 0)
   \<and> sqrt (\<Sum>x\<leftarrow>replicate 512 (0 :: real). x\<^sup>2) = 0
   \<and> filter (\<lambda>w. length w > 2)
         (split_runs (\<lambda>c. \<not> is_word_char c) (toLowerCase ''transformer attention''))
       = [''transformer'', ''attention'']"
proof -
  have t: "trim ''transformer attention'' = ''transformer attention''"
    by code_simp
  have c: "cleanText ''transformer attention'' = ''s''"
    by code_simp
  have w: "words_of ''transformer attention'' = []"
    by code_simp
  have e: "generateEnhancedEmbedding ''transformer attention'' = Inr (replicate 512 0)"
    using w by (simp add: generateEnhancedEmbedding_def Let_def)
  have n: "(\<Sum>x\<leftarrow>replicate 512 (0 :: real). x\<^sup>2) = 0"
    by (simp add: sum_list_replicate)
  have s: "filter (\<lambda>w. length w > 2)
         (split_runs (\<lambda>c. \<not> is_word_char c) (toLowerCase ''transformer attention''))
       = [''transformer'', ''attention'']"
    by code_simp
  show ?thesis
    using t c w e n s by simp
qed

section \<open>Hybrid search\<close>

subsection \<open>The result map\<close>

lemma keyed_map_set:
  "keyed m \<Longrightarrow> pid e = k \<Longrightarrow> combinedScore e \<noteq> None \<Longrightarrow> keyed (map_set m k e)"
  unfolding keyed_def using set_map_set [of m k e] distinct_map_set [of m k e] by auto

lemma keyed_lookup: "keyed m \<Longrightarrow> map_of m k = Some e \<Longrightarrow> pid e = k \<and> combinedScore e \<noteq> None"
  unfolding keyed_def by (auto dest: map_of_SomeD)

lemma keyed_add_semantic: "keyed m \<Longrightarrow> keyed (add_semantic m p)"
  by (simp add: add_semantic_def keyed_map_set)

lemma keyed_add_keyword: "keyed m \<Longrightarrow> keyed (add_keyword m p)"
proof (cases "map_of m (pid p)")
  case None
  assume "keyed m"
  then show ?thesis using None by (simp add: add_keyword_def keyed_map_set)
next
  case (Some existing)
  assume k: "keyed m"
  then have "pid existing = pid p" using Some by (simp add: keyed_lookup)
  then show ?thesis using Some k by (simp add: add_keyword_def keyed_map_set)
qed

lemma keyed_add_graph: "keyed m \<Longrightarrow> keyed (add_graph m p)"
proof (cases "map_of m (pid p)")
  case None
  assume "keyed m"
  then show ?thesis using None by (simp add: add_graph_def keyed_map_set)
next
  case (Some existing)
  assume k: "keyed m"
  then have "pid existing = pid p" using Some by (simp add: keyed_lookup)
  then show ?thesis using Some k by (simp add: add_graph_def keyed_map_set)
qed

lemma keyed_foldl:
  assumes "\<And>m p. keyed m \<Longrightarrow> keyed (step m p)"
  shows "keyed m \<Longrightarrow> keyed (foldl step m ps)"
  using assms by (induction ps arbitrary: m) auto

lemma keyed_merged_map: "keyed (merged_map semRes kwRes grRes)"
  unfolding merged_map_def
proof -
  have "keyed []" by (simp add: keyed_def)
  then have "keyed (foldl add_semantic [] semRes)"
    by (rule keyed_foldl [rotated]) (rule keyed_add_semantic)
  then have "keyed (foldl add_keyword (foldl add_semantic [] semRes) kwRes)"
    by (rule keyed_foldl [rotated]) (rule keyed_add_keyword)
  then show "keyed (foldl add_graph (foldl add_keyword (foldl add_semantic [] semRes) kwRes) grRes)"
    by (rule keyed_foldl [rotated]) (rule keyed_add_graph)
qed

lemma foldl_upsert:
  fixes step :: "(string \<times> paper) list \<Rightarrow> paper \<Rightarrow> (string \<times> paper) list"
  assumes step: "\<And>m p k. map_of (step m p) k
                   = (if k = pid p then Some (h p (map_of m k)) else map_of m k)"
  shows "map_of (foldl step m ps) k
           = foldl (\<lambda>x p. Some (h p x)) (map_of m k) (occurrences ps k)"
proof (induction ps arbitrary: m)
  case Nil
  then show ?case by (simp add: occurrences_def)
next
  case (Cons p ps)
  show ?case
    using Cons.IH [of "step m p"] step [of m p k] by (simp add: occurrences_def)
qed

lemma step_semantic:
  "map_of (add_semantic m p) k
     = (if k = pid p
        then Some ((\<lambda>p x. p\<lparr>combinedScore := Some (num_or0 (similarity p) * 0.5),
                              sources := [''semantic'']\<rparr>) p (map_of m k))
        else map_of m k)"
  by (simp add: add_semantic_def map_of_map_set)

lemma step_keyword:
  "map_of (add_keyword m p) k
     = (if k = pid p
        then Some ((\<lambda>p x. case x of
                      None \<Rightarrow> p\<lparr>combinedScore := Some (num_or0 (relevance p) * 0.3),
                                 sources := [''keyword'']\<rparr>
                    | Some e \<Rightarrow> e\<lparr>combinedScore :=
                                    Some (num_or0 (combinedScore e) + num_or0 (relevance p) * 0.3),
                                  sources := sources e @ [''keyword'']\<rparr>) p (map_of m k))
        else map_of m k)"
  by (simp add: add_keyword_def map_of_map_set split: option.splits)

lemma step_graph:
  "map_of (add_graph m p) k
     = (if k = pid p
        then Some ((\<lambda>p x. case x of
                      None \<Rightarrow> p\<lparr>combinedScore := Some (num_or0 (connectionStrength p) * 0.2),
                                 sources := [''graph'']\<rparr>
                    | Some e \<Rightarrow> e\<lparr>combinedScore :=
                                    Some (num_or0 (combinedScore e)
                                          + num_or0 (connectionStrength p) * 0.2),
                                  sources := sources e @ [''graph'']\<rparr>) p (map_of m k))
        else map_of m k)"
  by (simp add: add_graph_def map_of_map_set split: option.splits)

text \<open>Score and number of sources of an entry after a loop, from those before it.\<close>

lemma semantic_loop_entry:
  "entry_score (map_of (foldl add_semantic m ps) k)
     = (if occurrences ps k = [] then entry_score (map_of m k)
        else num_or0 (similarity (last (occurrences ps k))) * 0.5)"
  "entry_count (map_of (foldl add_semantic m ps) k)
     = (if occurrences ps k = [] then entry_count (map_of m k) else 1)"
proof -
  have fold: "foldl (\<lambda>x p. Some (p\<lparr>combinedScore := Some (num_or0 (similarity p) * 0.5),
                              sources := [''semantic'']\<rparr>)) x qs
      = (if qs = [] then x
         else Some ((last qs)\<lparr>combinedScore := Some (num_or0 (similarity (last qs)) * 0.5),
                              sources := [''semantic'']\<rparr>))" for x qs
    by (induction qs arbitrary: x) auto
  show "entry_score (map_of (foldl add_semantic m ps) k)
     = (if occurrences ps k = [] then entry_score (map_of m k)
        else num_or0 (similarity (last (occurrences ps k))) * 0.5)"
    unfolding foldl_upsert [OF step_semantic] fold by (simp add: entry_score_def)
  show "entry_count (map_of (foldl add_semantic m ps) k)
     = (if occurrences ps k = [] then entry_count (map_of m k) else 1)"
    unfolding foldl_upsert [OF step_semantic] fold by (simp add: entry_count_def)
qed

lemma keyword_loop_entry:
  "entry_score (map_of (foldl add_keyword m ps) k)
     = entry_score (map_of m k) + (\<Sum>p\<leftarrow>occurrences ps k. num_or0 (relevance p) * 0.3)"
  "entry_count (map_of (foldl add_keyword m ps) k)
     = entry_count (map_of m k) + length (occurrences ps k)"
proof -
  let ?h = "\<lambda>x p. Some (case x of
                      None \<Rightarrow> p\<lparr>combinedScore := Some (num_or0 (relevance p) * 0.3),
                                 sources := [''keyword'']\<rparr>
                    | Some e \<Rightarrow> e\<lparr>combinedScore :=
                                    Some (num_or0 (combinedScore e) + num_or0 (relevance p) * 0.3),
                                  sources := sources e @ [''keyword'']\<rparr>)"
  have fold: "entry_score (foldl ?h x qs) = entry_score x + (\<Sum>p\<leftarrow>qs. num_or0 (relevance p) * 0.3)
      \<and> entry_count (foldl ?h x qs) = entry_count x + length qs" for x qs
    by (induction qs arbitrary: x)
       (auto simp: entry_score_def entry_count_def num_or0_def split: option.splits)
  show "entry_score (map_of (foldl add_keyword m ps) k)
     = entry_score (map_of m k) + (\<Sum>p\<leftarrow>occurrences ps k. num_or0 (relevance p) * 0.3)"
    unfolding foldl_upsert [OF step_keyword] using fold by blast
  show "entry_count (map_of (foldl add_keyword m ps) k)
     = entry_count (map_of m k) + length (occurrences ps k)"
    unfolding foldl_upsert [OF step_keyword] using fold by blast
qed

lemma graph_loop_entry:
  "entry_score (map_of (foldl add_graph m ps) k)
     = entry_score (map_of m k) + (\<Sum>p\<leftarrow>occurrences ps k. num_or0 (connectionStrength p) * 0.2)"
  "entry_count (map_of (foldl add_graph m ps) k)
     = entry_count (map_of m k) + length (occurrences ps k)"
proof -
  let ?h = "\<lambda>x p. Some (case x of
                      None \<Rightarrow> p\<lparr>combinedScore := Some (num_or0 (connectionStrength p) * 0.2),
                                 sources := [''graph'']\<rparr>
                    | Some e \<Rightarrow> e\<lparr>combinedScore :=
                                    Some (num_or0 (combinedScore e)
                                          + num_or0 (connectionStrength p) * 0.2),
                                  sources := sources e @ [''graph'']\<rparr>)"
  have fold: "entry_score (foldl ?h x qs)
        = entry_score x + (\<Sum>p\<leftarrow>qs. num_or0 (connectionStrength p) * 0.2)
      \<and> entry_count (foldl ?h x qs) = entry_count x + length qs" for x qs
    by (induction qs arbitrary: x)
       (auto simp: entry_score_def entry_count_def num_or0_def split: option.splits)
  show "entry_score (map_of (foldl add_graph m ps) k)
     = entry_score (map_of m k) + (\<Sum>p\<leftarrow>occurrences ps k. num_or0 (connectionStrength p) * 0.2)"
    unfolding foldl_upsert [OF step_graph] using fold by blast
  show "entry_count (map_of (foldl add_graph m ps) k)
     = entry_count (map_of m k) + length (occurrences ps k)"
    unfolding foldl_upsert [OF step_graph] using fold by blast
qed

lemma foldl_upsert_None:
  fixes step :: "(string \<times> paper) list \<Rightarrow> paper \<Rightarrow> (string \<times> paper) list"
  assumes step: "\<And>m p k. map_of (step m p) k
                   = (if k = pid p then Some (h p (map_of m k)) else map_of m k)"
  shows "(map_of (foldl step m ps) k = None) = (map_of m k = None \<and> k \<notin> pid ` set ps)"
proof -
  have "(foldl (\<lambda>x p. Some (h p x)) x qs = None) = (x = None \<and> qs = [])" for x qs
    by (induction qs arbitrary: x) auto
  then show ?thesis
    unfolding foldl_upsert [of step h, OF step]
    by (auto simp: occurrences_def filter_empty_conv)
qed

lemma merged_map_None:
  "(map_of (merged_map semRes kwRes grRes) k = None)
     = (k \<notin> pid ` set semRes \<and> k \<notin> pid ` set kwRes \<and> k \<notin> pid ` set grRes)"
  unfolding merged_map_def
  by (simp add: foldl_upsert_None [OF step_graph] foldl_upsert_None [OF step_keyword]
      foldl_upsert_None [OF step_semantic])

lemma merged_entry_score:
  "entry_score (map_of (merged_map semRes kwRes grRes) k)
     = (if occurrences semRes k = [] then 0
        else num_or0 (similarity (last (occurrences semRes k))) * 0.5)
       + (\<Sum>p\<leftarrow>occurrences kwRes k. num_or0 (relevance p) * 0.3)
       + (\<Sum>p\<leftarrow>occurrences grRes k. num_or0 (connectionStrength p) * 0.2)"
  unfolding merged_map_def graph_loop_entry keyword_loop_entry semantic_loop_entry
  by (simp add: entry_score_def)

lemma merged_entry_count:
  "entry_count (map_of (merged_map semRes kwRes grRes) k)
     = (if occurrences semRes k = [] then 0 else 1)
       + length (occurrences kwRes k) + length (occurrences grRes k)"
  unfolding merged_map_def graph_loop_entry keyword_loop_entry semantic_loop_entry
  by (simp add: entry_count_def)

lemma add_bonus_score:
  "combinedScore e \<noteq> None \<Longrightarrow>
     combinedScore (add_bonus e) = Some (num_or0 (combinedScore e) + bonus (length (sources e)))"
  by (auto simp: add_bonus_def bonus_def)

lemma pid_add_bonus [simp]: "pid (add_bonus e) = pid e"
  by (simp add: add_bonus_def)

lemma combine_member:
  assumes "e \<in> set (combineSearchResults semRes kwRes grRes)"
  shows "map_of (merged_map semRes kwRes grRes) (pid e) \<noteq> None
     \<and> combinedScore e
         = Some (entry_score (map_of (merged_map semRes kwRes grRes) (pid e))
                 + bonus (entry_count (map_of (merged_map semRes kwRes grRes) (pid e))))"
proof -
  let ?M = "merged_map semRes kwRes grRes"
  from assms obtain k e0 where mem: "(k, e0) \<in> set ?M" and e: "e = add_bonus e0"
    by (auto simp: combineSearchResults_def map_values_def)
  have keyed: "keyed ?M" by (rule keyed_merged_map)
  then have look: "map_of ?M k = Some e0"
    using mem by (simp add: keyed_def)
  then have "pid e0 = k" "combinedScore e0 \<noteq> None"
    using keyed keyed_lookup by blast+
  then show ?thesis
    using look e by (simp add: add_bonus_score entry_score_def entry_count_def)
qed

lemma combine_pids:
  "pid ` set (combineSearchResults semRes kwRes grRes)
     = pid ` set semRes \<union> pid ` set kwRes \<union> pid ` set grRes"
proof -
  let ?M = "merged_map semRes kwRes grRes"
  have keyed: "keyed ?M" by (rule keyed_merged_map)
  have "pid ` set (combineSearchResults semRes kwRes grRes) = pid ` snd ` set ?M"
    by (simp add: combineSearchResults_def map_values_def image_image)
  also have "\<dots> = fst ` set ?M"
    using keyed unfolding keyed_def by (force simp: image_iff)
  also have "\<dots> = {k. map_of ?M k \<noteq> None}"
    by (auto simp: map_of_eq_None_iff)
  also have "\<dots> = pid ` set semRes \<union> pid ` set kwRes \<union> pid ` set grRes"
    by (auto simp: merged_map_None)
  finally show ?thesis .
qed

lemma distinct_map_sort_key: "distinct (map g (sort_key f xs)) = distinct (map g xs)"
  by (simp add: distinct_map)

lemma combine_distinct: "distinct (map pid (combineSearchResults semRes kwRes grRes))"
proof -
  let ?M = "merged_map semRes kwRes grRes"
  have keyed: "keyed ?M" by (rule keyed_merged_map)
  have "map pid (map add_bonus (map_values ?M)) = map fst ?M"
    using keyed unfolding keyed_def map_values_def by auto
  then have "distinct (map pid (map add_bonus (map_values ?M)))"
    using keyed by (simp add: keyed_def)
  then show ?thesis
    unfolding combineSearchResults_def by (simp only: distinct_map_sort_key)
qed

lemma combine_sorted:
  "sorted_wrt (\<lambda>a b. num_or0 (combinedScore a) \<ge> num_or0 (combinedScore b))
     (combineSearchResults semRes kwRes grRes)"
proof -
  have "sorted (map (\<lambda>p. - num_or0 (combinedScore p)) (combineSearchResults semRes kwRes grRes))"
    unfolding combineSearchResults_def by (rule sorted_sort_key)
  then show ?thesis
    by (simp add: sorted_map)
qed

lemma occurrences_distinct:
  "distinct (map pid res) \<Longrightarrow>
     occurrences res k = (case find (\<lambda>p. pid p = k) res of None \<Rightarrow> [] | Some p \<Rightarrow> [p])"
proof (induction res)
  case Nil
  then show ?case by (simp add: occurrences_def)
next
  case (Cons a res)
  show ?case
  proof (cases "pid a = k")
    case True
    then have "filter (\<lambda>p. pid p = k) res = []"
      using Cons.prems by (simp add: filter_empty_conv image_iff) blast
    then show ?thesis using True by (simp add: occurrences_def)
  next
    case False
    then show ?thesis using Cons by (simp add: occurrences_def)
  qed
qed

lemma occurrences_nonempty: "(k \<in> pid ` set res) = (occurrences res k \<noteq> [])"
  by (auto simp: occurrences_def filter_empty_conv)

lemma distinct_entry:
  assumes "distinct (map pid semRes)" "distinct (map pid kwRes)" "distinct (map pid grRes)"
  shows "entry_score (map_of (merged_map semRes kwRes grRes) k)
           + bonus (entry_count (map_of (merged_map semRes kwRes grRes) k))
         = spec_combinedScore semRes kwRes grRes k"
proof -
  have count: "entry_count (map_of (merged_map semRes kwRes grRes) k)
      = sourceCount semRes kwRes grRes k"
    unfolding merged_entry_count sourceCount_def occurrences_nonempty
    by (simp add: occurrences_distinct assms split: option.splits)
  have score: "entry_score (map_of (merged_map semRes kwRes grRes) k)
      = weighted similarity 0.5 semRes k + weighted relevance 0.3 kwRes k
       + weighted connectionStrength 0.2 grRes k"
    unfolding merged_entry_score weighted_def
    by (simp add: occurrences_distinct assms split: option.splits)
  show ?thesis
    unfolding count score spec_combinedScore_def bonus_def by simp
qed

subsection \<open>The scenario lists\<close>

lemma demo_combined:
  "combineSearchResults demo_semantic demo_keyword []
     = [(scored_paper ''C'' (Some 0.6) None None)
          \<lparr>combinedScore := Some 1.3, sources := [''semantic'', ''keyword'']\<rparr>,
        (scored_paper ''B'' None (Some 2) None)
          \<lparr>combinedScore := Some 0.6, sources := [''keyword'']\<rparr>,
        (scored_paper ''A'' (Some 0.8) None None)
          \<lparr>combinedScore := Some 0.4, sources := [''semantic'']\<rparr>]"
  by (simp add: combineSearchResults_def merged_map_def demo_semantic_def demo_keyword_def
      scored_paper_def add_semantic_def add_keyword_def add_bonus_def map_values_def)

lemma demo_keyword_alone:
  "combineSearchResults [] demo_keyword []
     = [(scored_paper ''C'' None (Some 3) None)
          \<lparr>combinedScore := Some 0.9, sources := [''keyword'']\<rparr>,
        (scored_paper ''B'' None (Some 2) None)
          \<lparr>combinedScore := Some 0.6, sources := [''keyword'']\<rparr>]"
  by (simp add: combineSearchResults_def merged_map_def demo_keyword_def
      scored_paper_def add_keyword_def add_bonus_def map_values_def)

lemma demo_hybrid:
  "hybridSearch demo_service ''attention'' 2 None
     = Inr \<lparr>semanticResults = demo_semantic, keywordResults = demo_keyword, graphResults = [],
            combinedResults = take 2 (combineSearchResults demo_semantic demo_keyword [])\<rparr>"
proof -
  obtain v where v: "generateEmbeddings demo_service ''attention'' = Inr v"
    using enhanced_returns [of "''attention''"] by (auto simp: embeddings_primary)
  have k: "keywordSearch demo_service ''attention'' n None = Inr (take n demo_keyword)" for n
    by (simp add: keywordSearch_def search_session_def demo_service_def demo_driver_def)
  have s: "semanticSearch demo_service ''attention'' 2 None = Inr demo_semantic"
    using v by (simp add: semanticSearch_def search_session_def demo_service_def
        demo_driver_def demo_semantic_def)
  have c: "connected' demo_service" "driver demo_service = Some demo_driver"
    by (simp_all add: demo_service_def)
  have g: "graphSearch demo_service ''attention'' 2 None = Inr []"
    by (simp add: graphSearch_def c k search_session_def demo_driver_def demo_keyword_def)
  have k2: "keywordSearch demo_service ''attention'' 2 None = Inr demo_keyword"
    by (simp add: k demo_keyword_def)
  show ?thesis
    by (simp add: hybridSearch_def s k2 g)
qed

text \<open>
  For three strategy result lists in which no paper id occurs twice within one list, the
  merge follows the formula of the specification: every merged entry has as combined
  score the sum, over the strategies the paper appeared in, of the strategy score
  (similarity, relevance, connectionStrength) times the weight (0.5, 0.3, 0.2), plus 0.1
  times the number of contributing strategies minus one when there is more than one. The
  merged list holds each paper of the three lists exactly once and is sorted by
  descending combined score; the \<open>combinedResults\<close> of \<open>hybridSearch\<close> are its first
  \<open>limit\<close> entries.
\<close>

lemma combined_score_formula:
  "distinct (map pid semRes) \<Longrightarrow> distinct (map pid kwRes) \<Longrightarrow> distinct (map pid grRes) \<Longrightarrow>
     (\<forall>e \<in> set (combineSearchResults semRes kwRes grRes).
        combinedScore e = Some (spec_combinedScore semRes kwRes grRes (pid e)))
     \<and> pid ` set (combineSearchResults semRes kwRes grRes)
         = pid ` set semRes \<union> pid ` set kwRes \<union> pid ` set grRes
     \<and> distinct (map pid (combineSearchResults semRes kwRes grRes))
     \<and> sorted_wrt (\<lambda>a b. num_or0 (combinedScore a) \<ge> num_or0 (combinedScore b))
          (combineSearchResults semRes kwRes grRes)
     \<and> (\<forall>this queryText limit topic r.
           hybridSearch this queryText limit topic = Inr r \<longrightarrow>
             combinedResults r
               = take limit (combineSearchResults (semanticResults r) (keywordResults r)
                               (graphResults r))
             \<and> length (combinedResults r) \<le> limit)"
proof -
  assume d: "distinct (map pid semRes)" "distinct (map pid kwRes)" "distinct (map pid grRes)"
  have scores: "\<forall>e \<in> set (combineSearchResults semRes kwRes grRes).
        combinedScore e = Some (spec_combinedScore semRes kwRes grRes (pid e))"
  proof
    fix e
    assume "e \<in> set (combineSearchResults semRes kwRes grRes)"
    then have "combinedScore e
         = Some (entry_score (map_of (merged_map semRes kwRes grRes) (pid e))
                 + bonus (entry_count (map_of (merged_map semRes kwRes grRes) (pid e))))"
      by (rule combine_member [THEN conjunct2])
    then show "combinedScore e = Some (spec_combinedScore semRes kwRes grRes (pid e))"
      by (simp only: distinct_entry [OF d])
  qed
  have hybrid: "\<forall>this queryText limit topic r.
           hybridSearch this queryText limit topic = Inr r \<longrightarrow>
             combinedResults r
               = take limit (combineSearchResults (semanticResults r) (keywordResults r)
                               (graphResults r))
             \<and> length (combinedResults r) \<le> limit"
    by (auto simp: hybridSearch_def split: sum.splits)
  show ?thesis
    by (intro conjI scores combine_pids combine_distinct combine_sorted hybrid)
qed

lemma combined_score_formula_scenario:
  "distinct (map pid demo_semantic) \<and> distinct (map pid demo_keyword)
   \<and> distinct (map pid ([] :: paper list))
   \<and> map (\<lambda>e. (pid e, combinedScore e)) (combineSearchResults demo_semantic demo_keyword [])
       = [(''C'', Some (spec_combinedScore demo_semantic demo_keyword [] ''C'')),
          (''B'', Some (spec_combinedScore demo_semantic demo_keyword [] ''B'')),
          (''A'', Some (spec_combinedScore demo_semantic demo_keyword [] ''A''))]
   \<and> spec_combinedScore demo_semantic demo_keyword [] ''C'' = 1.3
   \<and> (\<exists>r. hybridSearch demo_service ''attention'' 2 None = Inr r
          \<and> map pid (combinedResults r) = [''C'', ''B''] \<and> length (combinedResults r) \<le> 2)"
proof -
  have d: "distinct (map pid demo_semantic)" "distinct (map pid demo_keyword)"
    "distinct (map pid ([] :: paper list))"
    by (simp_all add: demo_semantic_def demo_keyword_def scored_paper_def)
  note main = combined_score_formula [OF d]
  have scores: "\<forall>e \<in> set (combineSearchResults demo_semantic demo_keyword []).
        combinedScore e = Some (spec_combinedScore demo_semantic demo_keyword [] (pid e))"
    using main by blast
  have ids: "map pid (combineSearchResults demo_semantic demo_keyword []) = [''C'', ''B'', ''A'']"
    by (simp add: demo_combined scored_paper_def)
  have a: "map (\<lambda>e. (pid e, combinedScore e)) (combineSearchResults demo_semantic demo_keyword [])
       = [(''C'', Some (spec_combinedScore demo_semantic demo_keyword [] ''C'')),
          (''B'', Some (spec_combinedScore demo_semantic demo_keyword [] ''B'')),
          (''A'', Some (spec_combinedScore demo_semantic demo_keyword [] ''A''))]"
    using scores unfolding demo_combined by (simp add: scored_paper_def)
  have c: "spec_combinedScore demo_semantic demo_keyword [] ''C'' = 1.3"
    by (simp add: spec_combinedScore_def weighted_def sourceCount_def demo_semantic_def
        demo_keyword_def scored_paper_def)
  have "combinedResults r
               = take 2 (combineSearchResults (semanticResults r) (keywordResults r)
                               (graphResults r))
             \<and> length (combinedResults r) \<le> 2"
    if "hybridSearch demo_service ''attention'' 2 None = Inr r" for r
    using main that by blast
  then have h: "\<exists>r. hybridSearch demo_service ''attention'' 2 None = Inr r
          \<and> map pid (combinedResults r) = [''C'', ''B''] \<and> length (combinedResults r) \<le> 2"
    using demo_hybrid by (simp add: demo_combined scored_paper_def)
  show ?thesis
    using d a c h by blast
qed

text \<open>
  Claim C1. The claim scores a paper once per strategy it appeared in. The code scores
  it once per row: the keyword and graph loops add a contribution and push a source for
  every row whose id is already in the map, also when the earlier row came from the same
  list (the semantic loop overwrites instead). A paper filed under two topics comes back
  from the keyword query without a topic filter as one row per topic; found by the
  keyword strategy alone with relevance 1 it is merged to 0.3 + 0.3 + 0.1 = 0.7, with the
  sources \<open>keyword, keyword\<close> and a multi-source bonus, where the claim gives
  1 \<times> 0.3 = 0.3 and no bonus.
\<close>

theorem duplicate_rows_counted_twice:
  "map (\<lambda>e. (pid e, combinedScore e, sources e)) (combineSearchResults [] duplicate_keyword [])
     = [(''P'', Some 0.7, [''keyword'', ''keyword''])]
   \<and> spec_combinedScore [] duplicate_keyword [] ''P'' = 0.3
   \<and> (case hybridSearch two_topic_service ''attention'' 10 None of
         Inl e \<Rightarrow> []
       | Inr r \<Rightarrow> map (\<lambda>e. (pid e, combinedScore e, sources e)) (combinedResults r))
       = [(''P'', Some 0.7, [''keyword'', ''keyword''])]"
proof -
  have c: "map (\<lambda>e. (pid e, combinedScore e, sources e))
             (combineSearchResults [] duplicate_keyword [])
     = [(''P'', Some 0.7, [''keyword'', ''keyword''])]"
    by (simp add: combineSearchResults_def merged_map_def duplicate_keyword_def scored_paper_def
        add_keyword_def add_bonus_def map_values_def)
  have s: "spec_combinedScore [] duplicate_keyword [] ''P'' = 0.3"
    by (simp add: duplicate_keyword_def scored_paper_def spec_combinedScore_def weighted_def
        sourceCount_def)
  obtain v where v: "generateEmbeddings two_topic_service ''attention'' = Inr v"
    using enhanced_returns [of "''attention''"] by (auto simp: embeddings_primary)
  have k: "keywordSearch two_topic_service ''attention'' n None = Inr (take n duplicate_keyword)"
    for n
    by (simp add: keywordSearch_def search_session_def two_topic_service_def
        two_topic_driver_def)
  have sem: "semanticSearch two_topic_service ''attention'' 10 None = Inr []"
    using v by (simp add: semanticSearch_def search_session_def two_topic_service_def
        two_topic_driver_def)
  have d: "connected' two_topic_service" "driver two_topic_service = Some two_topic_driver"
    by (simp_all add: two_topic_service_def)
  have g: "graphSearch two_topic_service ''attention'' 10 None = Inr []"
    by (simp add: graphSearch_def d k search_session_def two_topic_driver_def
        duplicate_keyword_def)
  have k10: "keywordSearch two_topic_service ''attention'' 10 None = Inr duplicate_keyword"
    by (simp add: k duplicate_keyword_def)
  have "length (map (\<lambda>e. (pid e, combinedScore e, sources e))
                  (combineSearchResults [] duplicate_keyword [])) = 1"
    unfolding c by simp
  then have l: "length (combineSearchResults [] duplicate_keyword []) = 1"
    by simp
  have "hybridSearch two_topic_service ''attention'' 10 None
     = Inr \<lparr>semanticResults = [], keywordResults = duplicate_keyword, graphResults = [],
            combinedResults = combineSearchResults [] duplicate_keyword []\<rparr>"
    by (simp add: hybridSearch_def sem k10 g l)
  then show ?thesis
    using c s by simp
qed

lemma merged_ge_single:
  assumes "\<forall>p \<in> set semRes. 0 \<le> num_or0 (similarity p)"
    and "\<forall>p \<in> set kwRes. 0 \<le> num_or0 (relevance p)"
    and "\<forall>p \<in> set grRes. 0 \<le> num_or0 (connectionStrength p)"
    and "e \<in> set (combineSearchResults semRes kwRes grRes)"
    and "a \<in> set (combineSearchResults semRes [] []) \<union> set (combineSearchResults [] kwRes [])
            \<union> set (combineSearchResults [] [] grRes)"
    and "pid a = pid e"
  shows "num_or0 (combinedScore a) \<le> num_or0 (combinedScore e)"
proof -
  let ?k = "pid e"
  let ?S = "if occurrences semRes ?k = [] then 0
        else num_or0 (similarity (last (occurrences semRes ?k))) * 0.5"
  let ?K = "\<Sum>p\<leftarrow>occurrences kwRes ?k. num_or0 (relevance p) * 0.3"
  let ?G = "\<Sum>p\<leftarrow>occurrences grRes ?k. num_or0 (connectionStrength p) * 0.2"
  let ?s = "if occurrences semRes ?k = [] then 0 else (1::nat)"
  let ?ck = "length (occurrences kwRes ?k)"
  let ?cg = "length (occurrences grRes ?k)"
  have S: "0 \<le> ?S"
  proof (cases "occurrences semRes ?k = []")
    case True
    then show ?thesis by simp
  next
    case False
    then have "last (occurrences semRes ?k) \<in> set semRes"
      using last_in_set [OF False] by (simp add: occurrences_def)
    then show ?thesis using assms(1) False by simp
  qed
  have K: "0 \<le> ?K"
    using assms(2) by (intro sum_list_nonneg) (auto simp: occurrences_def)
  have G: "0 \<le> ?G"
    using assms(3) by (intro sum_list_nonneg) (auto simp: occurrences_def)
  have mono: "bonus n \<le> bonus m" if "n \<le> m" for n m
    using that by (simp add: bonus_def)
  have e: "num_or0 (combinedScore e) = ?S + ?K + ?G + bonus (?s + ?ck + ?cg)"
    using combine_member [OF assms(4)]
    by (simp add: merged_entry_score merged_entry_count)
  have a_cases: "num_or0 (combinedScore a) = ?S + bonus ?s
      \<or> num_or0 (combinedScore a) = ?K + bonus ?ck
      \<or> num_or0 (combinedScore a) = ?G + bonus ?cg"
    using assms(5) assms(6)
    by (auto dest!: combine_member simp: merged_entry_score merged_entry_count occurrences_def)
  have "bonus ?s \<le> bonus (?s + ?ck + ?cg)" "bonus ?ck \<le> bonus (?s + ?ck + ?cg)"
    "bonus ?cg \<le> bonus (?s + ?ck + ?cg)"
    by (rule mono, simp)+
  then show ?thesis
    using a_cases e S K G by linarith
qed

lemma weighted_nonneg:
  "\<forall>p \<in> set res. 0 \<le> num_or0 (score p) \<Longrightarrow> 0 \<le> w \<Longrightarrow> 0 \<le> weighted score w res k"
proof -
  assume nonneg: "\<forall>p \<in> set res. 0 \<le> num_or0 (score p)" and w: "0 \<le> w"
  show ?thesis
  proof (cases "find (\<lambda>p. pid p = k) res")
    case None
    then show ?thesis by (simp add: weighted_def)
  next
    case (Some p)
    then have "p \<in> set res" by (auto simp: find_Some_iff in_set_conv_nth)
    then show ?thesis using Some nonneg w by (simp add: weighted_def)
  qed
qed

text \<open>
  Claim C7. With strategy scores that are not negative (a cosine similarity above the
  floor, a weighted hit count, a count of connections), the combined score of a merged
  paper is at least the combined score the paper receives when any single one of the
  three lists is merged alone - in particular that of its best-contributing strategy.
  For lists without repeated ids this single-strategy score is the strategy score times
  its weight. It holds for every merged paper, so also for those found by two or more
  strategies.
\<close>

theorem combined_score_at_least_best_single:
  "\<forall>p \<in> set semRes. 0 \<le> num_or0 (similarity p) \<Longrightarrow>
   \<forall>p \<in> set kwRes. 0 \<le> num_or0 (relevance p) \<Longrightarrow>
   \<forall>p \<in> set grRes. 0 \<le> num_or0 (connectionStrength p) \<Longrightarrow>
   e \<in> set (combineSearchResults semRes kwRes grRes) \<Longrightarrow>
     (\<forall>a \<in> set (combineSearchResults semRes [] []) \<union> set (combineSearchResults [] kwRes [])
            \<union> set (combineSearchResults [] [] grRes).
        pid a = pid e \<longrightarrow> num_or0 (combinedScore a) \<le> num_or0 (combinedScore e))
     \<and> (distinct (map pid semRes) \<and> distinct (map pid kwRes) \<and> distinct (map pid grRes) \<longrightarrow>
          max (weighted similarity 0.5 semRes (pid e))
            (max (weighted relevance 0.3 kwRes (pid e))
               (weighted connectionStrength 0.2 grRes (pid e)))
            \<le> num_or0 (combinedScore e))"
proof -
  assume s: "\<forall>p \<in> set semRes. 0 \<le> num_or0 (similarity p)"
    and k: "\<forall>p \<in> set kwRes. 0 \<le> num_or0 (relevance p)"
    and g: "\<forall>p \<in> set grRes. 0 \<le> num_or0 (connectionStrength p)"
    and e: "e \<in> set (combineSearchResults semRes kwRes grRes)"
  have single: "\<forall>a \<in> set (combineSearchResults semRes [] []) \<union> set (combineSearchResults [] kwRes [])
            \<union> set (combineSearchResults [] [] grRes).
        pid a = pid e \<longrightarrow> num_or0 (combinedScore a) \<le> num_or0 (combinedScore e)"
    using merged_ge_single [OF s k g e] by blast
  have best: "max (weighted similarity 0.5 semRes (pid e))
            (max (weighted relevance 0.3 kwRes (pid e))
               (weighted connectionStrength 0.2 grRes (pid e)))
            \<le> num_or0 (combinedScore e)"
    if d: "distinct (map pid semRes) \<and> distinct (map pid kwRes) \<and> distinct (map pid grRes)"
  proof -
    have "num_or0 (combinedScore e) = spec_combinedScore semRes kwRes grRes (pid e)"
      using combine_member [OF e] distinct_entry [of semRes kwRes grRes "pid e"] d by simp
    moreover have "0 \<le> weighted similarity 0.5 semRes (pid e)"
      "0 \<le> weighted relevance 0.3 kwRes (pid e)"
      "0 \<le> weighted connectionStrength 0.2 grRes (pid e)"
      using s k g by (simp_all add: weighted_nonneg)
    ultimately show ?thesis
      by (simp add: spec_combinedScore_def)
  qed
  show ?thesis using single best by blast
qed

theorem combined_score_at_least_best_single_witness:
  "list_all (\<lambda>p. 0 \<le> num_or0 (similarity p)) demo_semantic
   \<and> list_all (\<lambda>p. 0 \<le> num_or0 (relevance p)) demo_keyword
   \<and> (scored_paper ''C'' (Some 0.6) None None)
        \<lparr>combinedScore := Some 1.3, sources := [''semantic'', ''keyword'']\<rparr>
       \<in> set (combineSearchResults demo_semantic demo_keyword [])
   \<and> (scored_paper ''C'' None (Some 3) None)\<lparr>combinedScore := Some 0.9, sources := [''keyword'']\<rparr>
       \<in> set (combineSearchResults [] demo_keyword [])
   \<and> weighted relevance 0.3 demo_keyword ''C'' = 0.9
   \<and> (0.9 :: real) \<le> 1.3"
proof -
  let ?e = "(scored_paper ''C'' (Some 0.6) None None)
        \<lparr>combinedScore := Some 1.3, sources := [''semantic'', ''keyword'']\<rparr>"
  let ?a = "(scored_paper ''C'' None (Some 3) None)
        \<lparr>combinedScore := Some 0.9, sources := [''keyword'']\<rparr>"
  have s: "\<forall>p \<in> set demo_semantic. 0 \<le> num_or0 (similarity p)"
    by (simp add: demo_semantic_def scored_paper_def)
  have k: "\<forall>p \<in> set demo_keyword. 0 \<le> num_or0 (relevance p)"
    by (simp add: demo_keyword_def scored_paper_def)
  have g: "\<forall>p \<in> set ([] :: paper list). 0 \<le> num_or0 (connectionStrength p)"
    by simp
  have e: "?e \<in> set (combineSearchResults demo_semantic demo_keyword [])"
    by (simp add: demo_combined)
  have a: "?a \<in> set (combineSearchResults [] demo_keyword [])"
    by (simp add: demo_keyword_alone)
  have w: "weighted relevance 0.3 demo_keyword ''C'' = 0.9"
    by (simp add: weighted_def demo_keyword_def scored_paper_def)
  have "pid ?a = pid ?e" by (simp add: scored_paper_def)
  then have "num_or0 (combinedScore ?a) \<le> num_or0 (combinedScore ?e)"
    using combined_score_at_least_best_single [OF s k g e] a by blast
  then show ?thesis
    using s k e a w by (simp add: list_all_iff)
qed

lemma hybrid_search_down:
  "\<not> connected' this \<or> driver this = None \<Longrightarrow>
     hybridSearch this queryText limit topic
       = Inr \<lparr>semanticResults = [], keywordResults = [], graphResults = [], combinedResults = []\<rparr>"
  by (simp add: hybridSearch_def semanticSearch_def keywordSearch_def graphSearch_def
      combineSearchResults_def merged_map_def map_values_def)

text \<open>
  Claim C2. When the connection to the graph store is down (\<open>connected\<close> is false or
  the driver is null), \<open>hybridSearch\<close> returns normally, for every query text, limit
  and topic, and all four result lists are empty.
\<close>

theorem store_down_gives_empty_results:
  "\<not> connected' this \<or> driver this = None \<Longrightarrow>
     hybridSearch this queryText limit topic
       = Inr \<lparr>semanticResults = [], keywordResults = [], graphResults = [], combinedResults = []\<rparr>"
  by (rule hybrid_search_down)

theorem store_down_gives_empty_results_witness:
  "\<not> connected' down_service
   \<and> hybridSearch down_service ''attention'' 10 None
       = Inr \<lparr>semanticResults = [], keywordResults = [], graphResults = [], combinedResults = []\<rparr>"
proof -
  have d: "\<not> connected' down_service \<or> driver down_service = None"
    by (simp add: down_service_def)
  have c: "\<not> connected' down_service"
    by (simp add: down_service_def)
  show ?thesis
    using store_down_gives_empty_results [OF d] c by simp
qed

section \<open>Question answering\<close>

lemma split_runs_chars:
  "w \<in> set (split_runs P s) \<Longrightarrow> c \<in> set w \<Longrightarrow> c \<in> set s \<and> \<not> P c"
proof (induction P s arbitrary: w rule: split_runs.induct)
  case (1 P)
  then show ?case by simp
next
  case (2 P d ds)
  show ?case
  proof (cases "P d")
    case True
    then have "w \<in> set (split_runs P (dropWhile P ds))"
      using "2.prems" by auto
    then have "c \<in> set (dropWhile P ds) \<and> \<not> P c"
      using "2.IH"(1) True "2.prems"(2) by blast
    then show ?thesis using set_dropWhileD by fastforce
  next
    case False
    show ?thesis
    proof (cases "split_runs P ds")
      case Nil
      then show ?thesis using "2.prems" False by auto
    next
      case (Cons v vs)
      then have "w = d # v \<or> w \<in> set vs" using "2.prems"(1) False by simp
      then show ?thesis
      proof
        assume "w = d # v"
        then have "c = d \<or> c \<in> set v" using "2.prems"(2) by simp
        moreover have "v \<in> set (split_runs P ds)" using Cons by simp
        ultimately show ?thesis using "2.IH"(2) [OF False] False by auto
      next
        assume "w \<in> set vs"
        then have "w \<in> set (split_runs P ds)" using Cons by simp
        then show ?thesis using "2.IH"(2) [OF False] "2.prems"(2) by auto
      qed
    qed
  qed
qed

lemma lower_not_upper: "\<not> is_upper_az (js_lower_char c)"
  by (auto simp: is_upper_az_def js_lower_char_def Let_def)

lemma entity_chars:
  assumes "w \<in> set (extractSimpleEntities question)" "c \<in> set w"
  shows "is_word_char c \<and> \<not> is_upper_az c"
proof -
  have "w \<in> set (split_runs is_js_space (strip_punctuation (toLowerCase question)))"
    using assms(1) by (auto simp: extractSimpleEntities_def dest: in_set_takeD)
  then have c: "c \<in> set (strip_punctuation (toLowerCase question))" "\<not> is_js_space c"
    using split_runs_chars assms(2) by blast+
  then have "c \<in> (\<lambda>q. if is_word_char (js_lower_char q) \<or> is_js_space (js_lower_char q)
                       then js_lower_char q else CHR '' '') ` set question"
    by (simp add: strip_punctuation_def toLowerCase_def image_image)
  then obtain q where "c = (if is_word_char (js_lower_char q) \<or> is_js_space (js_lower_char q)
                             then js_lower_char q else CHR '' '')"
    by blast
  moreover have "is_js_space (CHR '' '')" by (simp add: is_js_space_def)
  ultimately have "c = js_lower_char q \<and> is_word_char c"
    using c(2) by (auto split: if_splits)
  then show ?thesis using lower_not_upper by auto
qed

text \<open>
  Claim C9. Whenever the generator call fails, or its output fails JSON parsing,
  \<open>analyzeQuestion\<close> returns the type \<open>factual\<close>, the heuristic entities, the question
  as only search term and the intent \<open>research query\<close>. The heuristic entities are the
  first five of the tokens of the lower-cased question, punctuation replaced by blanks,
  that have more than three characters and are no stop word; they consist of word
  characters without capitals.
\<close>

theorem analyze_question_fallback:
  "generateCompletion env (AnalysisPrompt question) 300 0.1 = Inl err
   \<or> (generateCompletion env (AnalysisPrompt question) 300 0.1 = Inr response
        \<and> JSON_parse env response = None) \<Longrightarrow>
     analyzeQuestion env question
       = \<lparr>qa_type = JStr ''factual'',
          entities = JArr (map JStr (extractSimpleEntities question)),
          searchTerms = JArr [JStr question],
          intent = JStr ''research query''\<rparr>
     \<and> extractSimpleEntities question
         = take 5 (filter (\<lambda>word. length word > 3 \<and> word \<notin> set stopWords)
                     (split_runs is_js_space (strip_punctuation (toLowerCase question))))
     \<and> length (extractSimpleEntities question) \<le> 5
     \<and> (\<forall>w \<in> set (extractSimpleEntities question).
           length w > 3 \<and> w \<notin> set stopWords
           \<and> (\<forall>c \<in> set w. is_word_char c \<and> \<not> is_upper_az c))"
proof -
  assume fails: "generateCompletion env (AnalysisPrompt question) 300 0.1 = Inl err
   \<or> (generateCompletion env (AnalysisPrompt question) 300 0.1 = Inr response
        \<and> JSON_parse env response = None)"
  then have "analyzeQuestion env question = heuristic_analysis question"
    by (auto simp: analyzeQuestion_def)
  then have a: "analyzeQuestion env question
       = \<lparr>qa_type = JStr ''factual'',
          entities = JArr (map JStr (extractSimpleEntities question)),
          searchTerms = JArr [JStr question],
          intent = JStr ''research query''\<rparr>"
    by (simp add: heuristic_analysis_def)
  have b: "length (extractSimpleEntities question) \<le> 5"
    by (simp add: extractSimpleEntities_def)
  have c: "\<forall>w \<in> set (extractSimpleEntities question).
           length w > 3 \<and> w \<notin> set stopWords
           \<and> (\<forall>c \<in> set w. is_word_char c \<and> \<not> is_upper_az c)"
  proof
    fix w
    assume w: "w \<in> set (extractSimpleEntities question)"
    then have "w \<in> set (filter (\<lambda>word. length word > 3 \<and> word \<notin> set stopWords)
                     (split_runs is_js_space (strip_punctuation (toLowerCase question))))"
      unfolding extractSimpleEntities_def by (rule in_set_takeD)
    then have "length w > 3 \<and> w \<notin> set stopWords" by simp
    then show "length w > 3 \<and> w \<notin> set stopWords
           \<and> (\<forall>c \<in> set w. is_word_char c \<and> \<not> is_upper_az c)"
      using entity_chars [OF w] by blast
  qed
  have d: "extractSimpleEntities question
         = take 5 (filter (\<lambda>word. length word > 3 \<and> word \<notin> set stopWords)
                     (split_runs is_js_space (strip_punctuation (toLowerCase question))))"
    by (simp only: extractSimpleEntities_def)
  show ?thesis
    by (intro conjI a b c d)
qed

theorem analyze_question_fallback_witness:
  "generateCompletion quiet_env (AnalysisPrompt ''What is Attention?'') 300 0.1 = Inr ''ok''
   \<and> JSON_parse quiet_env ''ok'' = None
   \<and> generateCompletion failing_env (AnalysisPrompt ''What is Attention?'') 300 0.1
       = Inl (Thrown ''Groq API error'')
   \<and> analyzeQuestion quiet_env ''What is Attention?''
       = \<lparr>qa_type = JStr ''factual'', entities = JArr [JStr ''attention''],
          searchTerms = JArr [JStr ''What is Attention?''], intent = JStr ''research query''\<rparr>
   \<and> analyzeQuestion failing_env ''What is Attention?''
       = \<lparr>qa_type = JStr ''factual'', entities = JArr [JStr ''attention''],
          searchTerms = JArr [JStr ''What is Attention?''], intent = JStr ''research query''\<rparr>"
proof -
  have g: "generateCompletion quiet_env (AnalysisPrompt ''What is Attention?'') 300 0.1 = Inr ''ok''"
    by (simp add: generateCompletion_def quiet_env_def)
  have p: "JSON_parse quiet_env ''ok'' = None"
    by (simp add: quiet_env_def)
  have f: "generateCompletion failing_env (AnalysisPrompt ''What is Attention?'') 300 0.1
       = Inl (Thrown ''Groq API error'')"
    by (simp add: generateCompletion_def failing_env_def)
  have e: "extractSimpleEntities ''What is Attention?'' = [''attention'']"
    by code_simp
  from analyze_question_fallback [of quiet_env "''What is Attention?''" _ "''ok''"] g p
  have q: "analyzeQuestion quiet_env ''What is Attention?''
       = \<lparr>qa_type = JStr ''factual'',
          entities = JArr (map JStr (extractSimpleEntities ''What is Attention?'')),
          searchTerms = JArr [JStr ''What is Attention?''],
          intent = JStr ''research query''\<rparr>"
    by blast
  from analyze_question_fallback [of failing_env "''What is Attention?''"
      "Thrown ''Groq API error''"] f
  have r: "analyzeQuestion failing_env ''What is Attention?''
       = \<lparr>qa_type = JStr ''factual'',
          entities = JArr (map JStr (extractSimpleEntities ''What is Attention?'')),
          searchTerms = JArr [JStr ''What is Attention?''],
          intent = JStr ''research query''\<rparr>"
    by blast
  show ?thesis
    using g p f q r unfolding e by simp
qed

lemma join_throws_not_array: "\<forall>items. v \<noteq> JArr items \<Longrightarrow> join_throws v"
  by (cases v) (simp_all add: join_throws_def)

lemma heuristic_printable:
  "\<not> to_string_throws (qa_type (heuristic_analysis question))"
  "\<not> join_throws (entities (heuristic_analysis question))"
  "\<not> to_string_throws (intent (heuristic_analysis question))"
  by (auto simp: heuristic_analysis_def join_throws_def)

lemma generateAnswer_throws:
  "(\<exists>e. generateAnswer env question passages qa history = Inl e)
     \<longleftrightarrow> to_string_throws (qa_type qa) \<or> join_throws (entities qa)
           \<or> to_string_throws (intent qa)"
  by (auto simp: generateAnswer_def Let_def split: sum.splits)

lemma pipeline_throws:
  "(\<exists>err. ask_pipeline env question topic history = Inl err)
     \<longleftrightarrow> to_string_throws (qa_type (analyzeQuestion env question))
           \<or> join_throws (entities (analyzeQuestion env question))
           \<or> (\<exists>e. hybridSearch (neo4j env) question 10 topic = Inl e)
           \<or> to_string_throws (intent (analyzeQuestion env question))"
proof (cases "to_string_throws (qa_type (analyzeQuestion env question))
                \<or> join_throws (entities (analyzeQuestion env question))")
  case True
  then show ?thesis by (auto simp: ask_pipeline_def Let_def)
next
  case printable: False
  show ?thesis
  proof (cases "hybridSearch (neo4j env) question 10 topic")
    case (Inl e)
    then show ?thesis using printable by (simp add: ask_pipeline_def Let_def)
  next
    case (Inr searchResults)
    let ?papers = "getPapersFullContent env (take 5 (combinedResults searchResults))"
    have "(\<exists>err. ask_pipeline env question topic history = Inl err)
        \<longleftrightarrow> (\<exists>e. generateAnswer env question (extractRelevantPassages ?papers question)
                     (analyzeQuestion env question) history = Inl e)"
      using printable Inr by (auto simp: ask_pipeline_def Let_def split: sum.splits)
    then show ?thesis
      using printable Inr by (simp add: generateAnswer_throws)
  qed
qed

lemma pipeline_caught:
  assumes "ask_pipeline env question topic history = Inl err"
  shows "askQuestion env question topic history =
     \<lparr>answer = ''I apologize, but I encountered an error while searching through the research papers. Please try rephrasing your question or check if the research database is available.'',
      response_sources = [],
      response_context =
        \<lparr>relevantPapers = [], searchQuery = question, searchType = ''error'',
         totalPapersFound = 0, ctx_confidence = 0\<rparr>,
      suggestedQuestions =
        [''Can you help me find papers on machine learning?'',
         ''What research topics are available in the database?'',
         ''Show me highly cited papers in the system''],
      reasoning = ''Error in processing - using fallback response''\<rparr>"
  using assms by (simp add: askQuestion_def error_response_def)

lemma pipeline_hybrid:
  assumes "ask_pipeline env question topic history = Inr response"
  shows "searchType (response_context response) = ''hybrid''"
  using assms by (auto simp: ask_pipeline_def Let_def split: if_splits sum.splits)

lemma pipeline_empty_results:
  assumes "hybridSearch (neo4j env) question 10 topic = Inr r" "combinedResults r = []"
    and "ask_pipeline env question topic history = Inr response"
  shows "ctx_confidence (response_context response) = 0
           \<and> (\<exists>a. suggestedQuestions response = generateFollowUpQuestions env question a [])"
  using assms
  by (auto simp: ask_pipeline_def Let_def getPapersFullContent_def calculateConfidence_def
      split: if_splits sum.splits)

lemma follow_up_nonempty:
  assumes "\<forall>a reply. generateCompletion env (FollowUpPrompt question a []) 200 0.5 = Inr reply
             \<longrightarrow> (\<exists>line \<in> set (split_on newline reply). length (trim line) > 10)"
  shows "generateFollowUpQuestions env question a [] \<noteq> []"
proof (cases "generateCompletion env (FollowUpPrompt question a []) 200 0.5")
  case (Inl e)
  then show ?thesis by (simp add: generateFollowUpQuestions_def)
next
  case (Inr reply)
  then obtain line where "line \<in> set (split_on newline reply)" "length (trim line) > 10"
    using assms by blast
  then have "filter (\<lambda>line. length (trim line) > 10) (split_on newline reply) \<noteq> []"
    by (auto simp: filter_empty_conv)
  then show ?thesis using Inr by (simp add: generateFollowUpQuestions_def)
qed

text \<open>
  Claim C4 (as amended). \<open>askQuestion\<close> always returns a response. Whenever a failure
  is not recovered by the step it occurs in and reaches the \<open>catch\<close> block of
  \<open>askQuestion\<close> - the hybrid search rejects, the analysed entities are not an array,
  or the analysed type, an entity or the intent cannot be converted to a string for the
  log line and the answer prompt - the response is the fixed apologetic answer with no
  sources, confidence 0, the three generic suggested questions and search type
  \<open>error\<close>. In every other case, failures of the text generator included, the search
  type is \<open>hybrid\<close>. When the retrieved paper list is empty the confidence is 0, and
  the suggested questions are not empty provided the reply of the generator to the
  follow-up prompt, when it replies, has a line of more than 10 characters after
  trimming.
\<close>

theorem ask_question_never_throws:
  "(hybridSearch (neo4j env) question 10 topic = Inl e
      \<or> (\<forall>items. entities (analyzeQuestion env question) \<noteq> JArr items)
      \<or> to_string_throws (qa_type (analyzeQuestion env question))
      \<or> join_throws (entities (analyzeQuestion env question))
      \<or> to_string_throws (intent (analyzeQuestion env question)) \<longrightarrow>
      askQuestion env question topic history =
        \<lparr>answer = ''I apologize, but I encountered an error while searching through the research papers. Please try rephrasing your question or check if the research database is available.'',
         response_sources = [],
         response_context =
           \<lparr>relevantPapers = [], searchQuery = question, searchType = ''error'',
            totalPapersFound = 0, ctx_confidence = 0\<rparr>,
         suggestedQuestions =
           [''Can you help me find papers on machine learning?'',
            ''What research topics are available in the database?'',
            ''Show me highly cited papers in the system''],
         reasoning = ''Error in processing - using fallback response''\<rparr>)
   \<and> (hybridSearch (neo4j env) question 10 topic = Inr r
        \<and> \<not> to_string_throws (qa_type (analyzeQuestion env question))
        \<and> \<not> join_throws (entities (analyzeQuestion env question))
        \<and> \<not> to_string_throws (intent (analyzeQuestion env question)) \<longrightarrow>
        searchType (response_context (askQuestion env question topic history)) = ''hybrid'')
   \<and> (hybridSearch (neo4j env) question 10 topic = Inr r \<and> combinedResults r = [] \<longrightarrow>
        ctx_confidence (response_context (askQuestion env question topic history)) = 0
        \<and> ((\<forall>a reply. generateCompletion env (FollowUpPrompt question a []) 200 0.5 = Inr reply
                \<longrightarrow> (\<exists>line \<in> set (split_on newline reply). length (trim line) > 10))
             \<longrightarrow> suggestedQuestions (askQuestion env question topic history) \<noteq> []))"
proof (intro conjI impI)
  assume "hybridSearch (neo4j env) question 10 topic = Inl e
      \<or> (\<forall>items. entities (analyzeQuestion env question) \<noteq> JArr items)
      \<or> to_string_throws (qa_type (analyzeQuestion env question))
      \<or> join_throws (entities (analyzeQuestion env question))
      \<or> to_string_throws (intent (analyzeQuestion env question))"
  then have "to_string_throws (qa_type (analyzeQuestion env question))
           \<or> join_throws (entities (analyzeQuestion env question))
           \<or> (\<exists>e. hybridSearch (neo4j env) question 10 topic = Inl e)
           \<or> to_string_throws (intent (analyzeQuestion env question))"
    using join_throws_not_array [of "entities (analyzeQuestion env question)"] by blast
  then obtain err where "ask_pipeline env question topic history = Inl err"
    using pipeline_throws [of env question topic history] by blast
  then show "askQuestion env question topic history =
        \<lparr>answer = ''I apologize, but I encountered an error while searching through the research papers. Please try rephrasing your question or check if the research database is available.'',
         response_sources = [],
         response_context =
           \<lparr>relevantPapers = [], searchQuery = question, searchType = ''error'',
            totalPapersFound = 0, ctx_confidence = 0\<rparr>,
         suggestedQuestions =
           [''Can you help me find papers on machine learning?'',
            ''What research topics are available in the database?'',
            ''Show me highly cited papers in the system''],
         reasoning = ''Error in processing - using fallback response''\<rparr>"
    by (rule pipeline_caught)
next
  assume ok: "hybridSearch (neo4j env) question 10 topic = Inr r
        \<and> \<not> to_string_throws (qa_type (analyzeQuestion env question))
        \<and> \<not> join_throws (entities (analyzeQuestion env question))
        \<and> \<not> to_string_throws (intent (analyzeQuestion env question))"
  then have "\<not> (\<exists>err. ask_pipeline env question topic history = Inl err)"
    unfolding pipeline_throws by simp
  then obtain response where response: "ask_pipeline env question topic history = Inr response"
    by (cases "ask_pipeline env question topic history") auto
  then show "searchType (response_context (askQuestion env question topic history)) = ''hybrid''"
    using pipeline_hybrid [OF response] by (simp add: askQuestion_def)
next
  assume empty: "hybridSearch (neo4j env) question 10 topic = Inr r \<and> combinedResults r = []"
  show "ctx_confidence (response_context (askQuestion env question topic history)) = 0"
  proof (cases "ask_pipeline env question topic history")
    case (Inl err)
    then show ?thesis by (simp add: askQuestion_def error_response_def)
  next
    case (Inr response)
    then show ?thesis
      using pipeline_empty_results [of env question topic r history response] empty
      by (simp add: askQuestion_def)
  qed
next
  assume empty: "hybridSearch (neo4j env) question 10 topic = Inr r \<and> combinedResults r = []"
    and replies: "\<forall>a reply. generateCompletion env (FollowUpPrompt question a []) 200 0.5 = Inr reply
                \<longrightarrow> (\<exists>line \<in> set (split_on newline reply). length (trim line) > 10)"
  show "suggestedQuestions (askQuestion env question topic history) \<noteq> []"
  proof (cases "ask_pipeline env question topic history")
    case (Inl err)
    then show ?thesis by (simp add: askQuestion_def error_response_def)
  next
    case (Inr response)
    then obtain a where "suggestedQuestions response = generateFollowUpQuestions env question a []"
      using pipeline_empty_results [of env question topic r history response] empty by blast
    then show ?thesis
      using Inr follow_up_nonempty [OF replies] by (simp add: askQuestion_def)
  qed
qed

theorem ask_question_never_throws_witness:
  "hybridSearch (neo4j unreachable_env) ''What is attention?'' 10 None
     = Inl (Thrown ''Pool is closed'')
   \<and> askQuestion unreachable_env ''What is attention?'' None None
       = error_response ''What is attention?''
   \<and> entities (analyzeQuestion string_entities_env ''What is attention?'') = JStr ''attention''
   \<and> askQuestion string_entities_env ''What is attention?'' None None
       = error_response ''What is attention?''
   \<and> join_throws (entities (analyzeQuestion object_entities_env ''What is attention?''))
   \<and> askQuestion object_entities_env ''What is attention?'' None None
       = error_response ''What is attention?''
   \<and> to_string_throws (intent (analyzeQuestion object_intent_env ''What is attention?''))
   \<and> askQuestion object_intent_env ''What is attention?'' None None
       = error_response ''What is attention?''
   \<and> hybridSearch (neo4j helpful_env) ''What is attention?'' 10 None
       = Inr \<lparr>semanticResults = [], keywordResults = [], graphResults = [], combinedResults = []\<rparr>
   \<and> analyzeQuestion helpful_env ''What is attention?'' = heuristic_analysis ''What is attention?''
   \<and> searchType (response_context (askQuestion helpful_env ''What is attention?'' None None))
       = ''hybrid''
   \<and> generateCompletion helpful_env (FollowUpPrompt ''What is attention?'' ''ok'' []) 200 0.5
       = Inr ''1. Which papers study attention?''
   \<and> length (trim ''1. Which papers study attention?'') > 10
   \<and> ctx_confidence (response_context (askQuestion helpful_env ''What is attention?'' None None)) = 0
   \<and> suggestedQuestions (askQuestion helpful_env ''What is attention?'' None None) \<noteq> []"
proof -
  have u: "hybridSearch (neo4j unreachable_env) ''What is attention?'' 10 None
     = Inl (Thrown ''Pool is closed'')"
    by (simp add: hybridSearch_def semanticSearch_def search_session_def unreachable_env_def)
  have s: "entities (analyzeQuestion string_entities_env ''What is attention?'')
      = JStr ''attention''"
    by (simp add: analyzeQuestion_def generateCompletion_def string_entities_env_def
        get_prop_def or_default_def json_truthy_def)
  have o: "join_throws (entities (analyzeQuestion object_entities_env ''What is attention?''))"
    by (simp add: analyzeQuestion_def generateCompletion_def object_entities_env_def
        get_prop_def or_default_def json_truthy_def join_throws_def)
  have i: "to_string_throws (intent (analyzeQuestion object_intent_env ''What is attention?''))"
    by (simp add: analyzeQuestion_def generateCompletion_def object_intent_env_def
        get_prop_def or_default_def json_truthy_def)
  have h: "hybridSearch (neo4j helpful_env) ''What is attention?'' 10 None
       = Inr \<lparr>semanticResults = [], keywordResults = [], graphResults = [], combinedResults = []\<rparr>"
    by (rule hybrid_search_down) (simp add: helpful_env_def)
  have g: "generateCompletion helpful_env q m t = Inr ''1. Which papers study attention?''" for q m t
    by (simp add: generateCompletion_def helpful_env_def)
  have j: "JSON_parse helpful_env s = None" for s
    by (simp add: helpful_env_def)
  have a: "analyzeQuestion helpful_env ''What is attention?''
      = heuristic_analysis ''What is attention?''"
    by (simp add: analyzeQuestion_def g j)
  have l: "length (trim ''1. Which papers study attention?'') > 10"
    by (simp add: trim_def is_js_space_def)
  have r: "\<forall>a reply. generateCompletion helpful_env (FollowUpPrompt ''What is attention?'' a []) 200 0.5
                  = Inr reply
          \<longrightarrow> (\<exists>line \<in> set (split_on newline reply). length (trim line) > 10)"
    using l by (simp add: g newline_def)
  note p = heuristic_printable [of "''What is attention?''"]
  have e: "error_response ''What is attention?'' =
        \<lparr>answer = ''I apologize, but I encountered an error while searching through the research papers. Please try rephrasing your question or check if the research database is available.'',
         response_sources = [],
         response_context =
           \<lparr>relevantPapers = [], searchQuery = ''What is attention?'', searchType = ''error'',
            totalPapersFound = 0, ctx_confidence = 0\<rparr>,
         suggestedQuestions =
           [''Can you help me find papers on machine learning?'',
            ''What research topics are available in the database?'',
            ''Show me highly cited papers in the system''],
         reasoning = ''Error in processing - using fallback response''\<rparr>"
    by (simp add: error_response_def)
  have 1: "askQuestion unreachable_env ''What is attention?'' None None
       = error_response ''What is attention?''"
    using ask_question_never_throws [where env = unreachable_env
        and question = "''What is attention?''" and topic = None and history = None
        and e = "Thrown ''Pool is closed''"] u
    unfolding e by blast
  have 2: "askQuestion string_entities_env ''What is attention?'' None None
       = error_response ''What is attention?''"
    using ask_question_never_throws [where env = string_entities_env
        and question = "''What is attention?''" and topic = None and history = None] s
    unfolding e by simp
  have 3: "askQuestion object_entities_env ''What is attention?'' None None
       = error_response ''What is attention?''"
    using ask_question_never_throws [where env = object_entities_env
        and question = "''What is attention?''" and topic = None and history = None] o
    unfolding e by blast
  have 4: "askQuestion object_intent_env ''What is attention?'' None None
       = error_response ''What is attention?''"
    using ask_question_never_throws [where env = object_intent_env
        and question = "''What is attention?''" and topic = None and history = None] i
    unfolding e by blast
  note main = ask_question_never_throws [where env = helpful_env
      and question = "''What is attention?''" and topic = None and history = None
      and r = "\<lparr>semanticResults = [], keywordResults = [], graphResults = [],
               combinedResults = []\<rparr>"]
  have 5: "searchType (response_context (askQuestion helpful_env ''What is attention?'' None None))
       = ''hybrid''"
    using main h p unfolding a by simp
  have 6: "ctx_confidence (response_context (askQuestion helpful_env ''What is attention?'' None None)) = 0"
    using main h by simp
  have 7: "suggestedQuestions (askQuestion helpful_env ''What is attention?'' None None) \<noteq> []"
    using main h r by simp
  show ?thesis
    by (intro conjI u 1 s 2 o 3 i 4 h a 5 g l 6 7)
qed

text \<open>
  The claim as first stated fails twice. With the store down and a generator that answers
  \<open>ok\<close> to every prompt, no line of the follow-up reply is longer than 10 characters,
  and the response, of search type \<open>hybrid\<close>, carries no suggested question. With a
  generator that fails on every call, the failures are recovered where they occur: the
  response carries the fallback answer of \<open>generateAnswer\<close> and the search type
  \<open>hybrid\<close>, not the apologetic answer and \<open>error\<close>.
\<close>

theorem ask_question_recovers_locally:
  "hybridSearch (neo4j quiet_env) ''What is attention?'' 10 None
     = Inr \<lparr>semanticResults = [], keywordResults = [], graphResults = [], combinedResults = []\<rparr>
   \<and> suggestedQuestions (askQuestion quiet_env ''What is attention?'' None None) = []
   \<and> searchType (response_context (askQuestion quiet_env ''What is attention?'' None None))
       = ''hybrid''
   \<and> generateCompletion failing_env
         (AnswerPrompt ''What is attention?'' [] (heuristic_analysis ''What is attention?'') [])
         800 0.3
       = Inl (Thrown ''Groq API error'')
   \<and> searchType (response_context (askQuestion failing_env ''What is attention?'' None None))
       = ''hybrid''
   \<and> answer (askQuestion failing_env ''What is attention?'' None None)
       = ''I found relevant research papers but encountered an error while generating a comprehensive answer. The papers in your database contain information about your question, but I'm unable to process it fully at the moment.''"
proof -
  note p = heuristic_printable [of "''What is attention?''"]
  have h: "hybridSearch (neo4j quiet_env) ''What is attention?'' 10 None
     = Inr \<lparr>semanticResults = [], keywordResults = [], graphResults = [], combinedResults = []\<rparr>"
    by (rule hybrid_search_down) (simp add: quiet_env_def)
  have g: "generateCompletion quiet_env p m t = Inr ''ok''" for p m t
    by (simp add: generateCompletion_def quiet_env_def)
  have j: "JSON_parse quiet_env s = None" for s
    by (simp add: quiet_env_def)
  have a: "analyzeQuestion quiet_env ''What is attention?''
             = heuristic_analysis ''What is attention?''"
    by (simp add: analyzeQuestion_def g j)
  have t: "trim ''ok'' = ''ok''"
    by (simp add: trim_def is_js_space_def)
  have f: "generateFollowUpQuestions quiet_env q b ps = []" for q b ps
    by (simp add: generateFollowUpQuestions_def g t newline_def)
  have ga: "generateAnswer quiet_env ''What is attention?'' ps
              (heuristic_analysis ''What is attention?'') None = Inr (''ok'', ''ok'')" for ps
    using p by (simp add: generateAnswer_def g t)
  have quiet: "ask_pipeline quiet_env ''What is attention?'' None None
      = Inr \<lparr>answer = ''ok'', response_sources = [],
              response_context =
                \<lparr>relevantPapers = [], searchQuery = ''What is attention?'',
                 searchType = ''hybrid'', totalPapersFound = 0, ctx_confidence = 0\<rparr>,
              suggestedQuestions = [], reasoning = ''ok''\<rparr>"
    unfolding ask_pipeline_def a h
    using p by (simp add: Let_def getPapersFullContent_def
        extractRelevantPassages_def ga f calculateConfidence_def)
  have h': "hybridSearch (neo4j failing_env) ''What is attention?'' 10 None
     = Inr \<lparr>semanticResults = [], keywordResults = [], graphResults = [], combinedResults = []\<rparr>"
    by (rule hybrid_search_down) (simp add: failing_env_def)
  have g': "generateCompletion failing_env p m t = Inl (Thrown ''Groq API error'')" for p m t
    by (simp add: generateCompletion_def failing_env_def)
  have a': "analyzeQuestion failing_env ''What is attention?''
             = heuristic_analysis ''What is attention?''"
    by (simp add: analyzeQuestion_def g')
  have ga': "generateAnswer failing_env ''What is attention?'' ps
              (heuristic_analysis ''What is attention?'') None
      = Inr (''I found relevant research papers but encountered an error while generating a comprehensive answer. The papers in your database contain information about your question, but I'm unable to process it fully at the moment.'',
             ''Answer generation failed due to LLM service error'')" for ps
    using p by (simp add: generateAnswer_def g')
  have failing: "ask_pipeline failing_env ''What is attention?'' None None
      = Inr \<lparr>answer = ''I found relevant research papers but encountered an error while generating a comprehensive answer. The papers in your database contain information about your question, but I'm unable to process it fully at the moment.'',
              response_sources = [],
              response_context =
                \<lparr>relevantPapers = [], searchQuery = ''What is attention?'',
                 searchType = ''hybrid'', totalPapersFound = 0, ctx_confidence = 0\<rparr>,
              suggestedQuestions =
                [''Can you tell me more about the methodologies used in these studies?'',
                 ''What are the practical applications of these research findings?'',
                 ''Are there any recent developments in this research area?''],
              reasoning = ''Answer generation failed due to LLM service error''\<rparr>"
    unfolding ask_pipeline_def a' h'
    using p by (simp add: Let_def getPapersFullContent_def
        extractRelevantPassages_def ga' generateFollowUpQuestions_def g'
        calculateConfidence_def)
  show ?thesis
    using h quiet failing g' by (simp add: askQuestion_def)
qed

section \<open>Overall confidence of an investigation\<close>

text \<open>
  Claim C5 (as amended). For a non-empty list of executed steps, the overall confidence
  is the mean of the step confidences, plus 10 when there is more than one step, rounded
  to the nearest integer (a half rounding up) and capped at 100. It therefore lies within
  1/2 of mean plus bonus whenever that sum is at most 100, and a single step whose
  confidence is at most 100 yields exactly that confidence, with no bonus.
\<close>

theorem overall_confidence_rounded_mean:
  "steps \<noteq> [] \<Longrightarrow>
     calculateOverallConfidence steps
       = min 100 (js_round (mean_confidence steps + (if 1 < length steps then 10 else 0)))
     \<and> (mean_confidence steps + (if 1 < length steps then 10 else 0) \<le> 100 \<longrightarrow>
          \<bar>real_of_int (calculateOverallConfidence steps)
             - (mean_confidence steps + (if 1 < length steps then 10 else 0))\<bar> \<le> 1 / 2)
     \<and> (\<forall>s. steps = [s] \<and> confidence s \<le> 100 \<longrightarrow>
            calculateOverallConfidence steps = confidence s)"
proof -
  assume nonempty: "steps \<noteq> []"
  define x where "x = mean_confidence steps + (if 1 < length steps then 10 else 0)"
  have eq: "calculateOverallConfidence steps = min 100 (js_round x)"
    using nonempty unfolding calculateOverallConfidence_def Let_def avg_is_mean x_def by simp
  have near: "\<bar>real_of_int (calculateOverallConfidence steps) - x\<bar> \<le> 1 / 2" if "x \<le> 100"
  proof -
    have "js_round x \<le> 100"
      using that unfolding js_round_def by linarith
    then have "calculateOverallConfidence steps = js_round x"
      using eq by simp
    moreover have "\<bar>real_of_int (js_round x) - x\<bar> \<le> 1 / 2"
      unfolding js_round_def by linarith
    ultimately show ?thesis by simp
  qed
  have single: "calculateOverallConfidence steps = confidence s"
    if "steps = [s]" "confidence s \<le> 100" for s
    using that by (simp add: calculateOverallConfidence_def js_round_def)
  show ?thesis
    using eq near single unfolding x_def by blast
qed

theorem overall_confidence_rounded_mean_witness:
  "[step_with 70] \<noteq> [] \<and> confidence (step_with 70) \<le> 100
     \<and> mean_confidence [step_with 70] + (if 1 < length [step_with 70] then 10 else 0) \<le> 100
     \<and> calculateOverallConfidence [step_with 70] = 70"
proof -
  have nonempty: "[step_with 70] \<noteq> []" by simp
  have small: "confidence (step_with 70) \<le> 100" by (simp add: step_with_def)
  have mean: "mean_confidence [step_with 70] + (if 1 < length [step_with 70] then 10 else 0) \<le> 100"
    by (simp add: mean_confidence_def step_with_def)
  from overall_confidence_rounded_mean [OF nonempty] small
  have "calculateOverallConfidence [step_with 70] = confidence (step_with 70)"
    by blast
  then show ?thesis
    using nonempty small mean by (simp add: step_with_def)
qed

theorem overall_confidence_not_plain_mean:
  "real_of_int (calculateOverallConfidence [step_with 50, step_with 51])
     \<noteq> min 100 (mean_confidence [step_with 50, step_with 51] + 10)"
  by (simp add: calculateOverallConfidence_def step_with_def mean_confidence_def js_round_def)

section \<open>Confidence of a research step\<close>

text \<open>
  Claim C8. The step confidence is meant to be an integer between 0 and 100. One paper
  with 1000 citations and no full content, with one abstract passage of relevance 0.5,
  scores 6 + 0 + 15 + 150 = 171: the citation term is not capped.
\<close>

theorem step_confidence_exceeds_100:
  "calculateStepConfidence [cited_paper 1000] [abstract_passage] = 171"
  by (simp add: calculateStepConfidence_def cited_paper_def abstract_passage_def
      num_or0_def js_round_def)

end
